theory Spec2Isabelle
  imports Complex_Main
begin

section \<open>Errors\<close>

text \<open>
  The exceptions of Python that the modelled code raises or lets through, each with its
  message.  A computation that can raise returns a value of type \<open>error + 'a\<close>, \<open>Inl\<close>
  for the exception; \<open>bind_err\<close> runs the next statement on a result and lets an
  exception through.
\<close>

datatype error =
    ValueError string
  | IndexError string
  | KeyError string
  | OverflowError string
  | AttributeError string
  | FileNotFoundError string
  | NotADirectoryError string
  | PermissionError string

fun bind_err :: "error + 'a \<Rightarrow> ('a \<Rightarrow> error + 'b) \<Rightarrow> error + 'b" where
  "bind_err (Inl e) f = Inl e"
| "bind_err (Inr x) f = f x"

section \<open>The Significant-Digit Resolver (\<open>monkeypatch.py\<close>)\<close>

subsection \<open>Python floats\<close>

text \<open>
  A Python \<open>float\<close> is an IEEE 754 binary64 number: a finite value, an infinity or a
  not-a-number.  A finite float is given by its value, a real number; the two zeros are
  one value, which the modelled code cannot tell apart (it takes \<open>abs\<close>, multiplies,
  compares and takes the ceiling).  A Python number is an \<open>int\<close>, which is unbounded, or a
  \<open>float\<close>.
\<close>

datatype pyfloat = Fin real | PosInf | NegInf | NaN

datatype pynum = PInt int | PFloat pyfloat

text \<open>
  Rounding of a real number to binary64, to nearest with ties to even.  \<open>round_even\<close>
  rounds to an integer.  \<open>ulp_exp x\<close> is the exponent of the unit in the last place at
  \<open>x\<close>: 52 below the binary exponent of \<open>x\<close>, and \<open>-1074\<close> for the subnormal numbers.
  \<open>rnd x\<close> is the nearest multiple of that unit, with no bound on the exponent;
  \<open>to_float\<close> gives the infinity of the sign of \<open>x\<close> when that is \<open>2 ^ 1024\<close> or more in
  magnitude.
\<close>

definition round_even :: "real \<Rightarrow> int" where
  "round_even z = (let f = \<lfloor>z\<rfloor>; d = z - of_int f in
     if d < 1 / 2 then f else if 1 / 2 < d then f + 1 else if even f then f else f + 1)"

definition ulp_exp :: "real \<Rightarrow> int" where
  "ulp_exp x = max \<lfloor>log 2 \<bar>x\<bar>\<rfloor> (- 1022) - 52"

definition rnd :: "real \<Rightarrow> real" where
  "rnd x = of_int (round_even (x / 2 powi ulp_exp x)) * 2 powi ulp_exp x"

definition to_float :: "real \<Rightarrow> pyfloat" where
  "to_float x = (if 2 ^ 1024 \<le> \<bar>rnd x\<bar> then (if 0 < x then PosInf else NegInf) else Fin (rnd x))"

subsection \<open>Facts about rounding\<close>

lemma round_even_near:
  assumes "\<bar>z - of_int m\<bar> < 1 / 2 \<or> \<bar>z - of_int m\<bar> = 1 / 2 \<and> even m"
  shows "round_even z = m"
proof (cases "of_int m \<le> z")
  case True
  with assms have f: "\<lfloor>z\<rfloor> = m" by (intro floor_unique) linarith+
  from assms True have "z - of_int m < 1 / 2 \<or> z - of_int m = 1 / 2 \<and> even m"
    by linarith
  then show ?thesis using f by (auto simp add: round_even_def Let_def)
next
  case False
  from assms have "\<bar>z - of_int m\<bar> \<le> 1 / 2" by linarith
  with False have "of_int (m - 1) \<le> z" "z < of_int (m - 1) + 1" by simp_all
  then have f: "\<lfloor>z\<rfloor> = m - 1" by (rule floor_unique)
  from assms False have "1 / 2 < z - of_int (m - 1) \<or> z - of_int (m - 1) = 1 / 2 \<and> odd (m - 1)"
    by simp linarith
  then show ?thesis using f by (auto simp add: round_even_def Let_def)
qed

lemma round_even_lower: "of_int a \<le> z \<Longrightarrow> a \<le> round_even z"
proof -
  assume "of_int a \<le> z"
  then have "a \<le> \<lfloor>z\<rfloor>" by (simp add: le_floor_iff)
  then show ?thesis by (simp add: round_even_def Let_def)
qed

lemma round_even_upper: "z \<le> of_int b \<Longrightarrow> round_even z \<le> b"
proof -
  assume b: "z \<le> of_int b"
  show ?thesis
  proof (cases "z = of_int \<lfloor>z\<rfloor>")
    case True
    then have "round_even z = \<lfloor>z\<rfloor>" by (simp add: round_even_def Let_def)
    moreover from b have "\<lfloor>z\<rfloor> \<le> b" by (simp add: floor_le_iff)
    ultimately show ?thesis by simp
  next
    case False
    have "of_int \<lfloor>z\<rfloor> \<le> z" by simp
    with False have "of_int \<lfloor>z\<rfloor> < z" by linarith
    with b have "of_int \<lfloor>z\<rfloor> < (of_int b :: real)" by linarith
    then have "\<lfloor>z\<rfloor> < b" by simp
    then have "\<lfloor>z\<rfloor> + 1 \<le> b" by simp
    then show ?thesis by (simp add: round_even_def Let_def)
  qed
qed

lemma powr_pow2: "(2::real) powr real_of_int k = 2 powi k"
  by (rule powr_real_of_int') simp_all

lemma ulp_exp_eval:
  assumes "2 powi k \<le> \<bar>x\<bar>" and "\<bar>x\<bar> < 2 powi (k + 1)"
  shows "ulp_exp x = max k (- 1022) - 52"
proof -
  have "0 < (2::real) powi k" by simp
  with assms(1) have pos: "0 < \<bar>x\<bar>" by linarith
  have "(2::real) powr (real_of_int k + 1) = 2 powi (k + 1)"
    using powr_pow2 [of "k + 1"] by simp
  then have "\<lfloor>log 2 \<bar>x\<bar>\<rfloor> = k"
    using assms floor_log_eq_powr_iff [OF pos, of 2 k] by (simp add: powr_pow2)
  then show ?thesis by (simp add: ulp_exp_def)
qed

lemma ulp_exp_le:
  assumes "x \<noteq> 0" and "\<bar>x\<bar> < 2 powi (E + 53)" and "- 1074 \<le> E"
  shows "ulp_exp x \<le> E"
proof -
  from assms(1) have pos: "0 < \<bar>x\<bar>" by simp
  have "log 2 \<bar>x\<bar> < real_of_int (E + 53)"
    using assms(2) pos by (simp add: log_less_iff powr_pow2 del: of_int_add)
  then have "\<lfloor>log 2 \<bar>x\<bar>\<rfloor> < E + 53" by (simp add: floor_less_iff del: of_int_add)
  with assms(3) show ?thesis by (simp add: ulp_exp_def)
qed

lemma rnd_zero [simp]: "rnd 0 = 0"
  by (simp add: rnd_def round_even_def)

lemma rnd_between:
  assumes "of_int a * 2 powi E \<le> y" and "y \<le> of_int b * 2 powi E"
    and "\<bar>y\<bar> < 2 powi (E + 53)" and "- 1074 \<le> E"
  shows "of_int a * 2 powi E \<le> rnd y \<and> rnd y \<le> of_int b * 2 powi E"
proof (cases "y = 0")
  case True
  with assms show ?thesis by simp
next
  case False
  define e where "e = ulp_exp y"
  have le: "e \<le> E" unfolding e_def by (rule ulp_exp_le [OF False assms(3,4)])
  define n where "n = nat (E - e)"
  have "(2::real) powi ((E - e) + e) = 2 powi (E - e) * 2 powi e"
    by (rule power_int_add) simp
  moreover have "(2::real) powi (E - e) = 2 ^ n"
    using le by (simp add: n_def power_int_def)
  ultimately have E: "(2::real) powi E = 2 ^ n * 2 powi e"
    by simp
  have p: "0 < (2::real) powi e" by simp
  have "of_int (a * 2 ^ n) \<le> y / 2 powi e"
    using assms(1) p by (simp add: E pos_le_divide_eq mult.assoc)
  then have 1: "a * 2 ^ n \<le> round_even (y / 2 powi e)" by (rule round_even_lower)
  have "y / 2 powi e \<le> of_int (b * 2 ^ n)"
    using assms(2) p by (simp add: E pos_divide_le_eq mult.assoc)
  then have 2: "round_even (y / 2 powi e) \<le> b * 2 ^ n" by (rule round_even_upper)
  from 1 have "real_of_int (a * 2 ^ n) \<le> of_int (round_even (y / 2 powi e))"
    by (simp only: of_int_le_iff)
  then have 3: "of_int a * 2 powi E \<le> rnd y"
    using p by (simp add: rnd_def E e_def [symmetric] mult.assoc [symmetric])
  from 2 have "real_of_int (round_even (y / 2 powi e)) \<le> of_int (b * 2 ^ n)"
    by (simp only: of_int_le_iff)
  then have 4: "rnd y \<le> of_int b * 2 powi E"
    using p by (simp add: rnd_def E e_def [symmetric] mult.assoc [symmetric])
  from 3 4 show ?thesis by simp
qed

lemma rnd_exact:
  assumes "\<bar>real_of_int m * 2 powi E\<bar> < 2 powi (E + 53)" and "- 1074 \<le> E"
  shows "rnd (of_int m * 2 powi E) = of_int m * 2 powi E"
  using rnd_between [OF order_refl order_refl assms] by simp

lemma rnd_eval:
  assumes "2 powi k \<le> \<bar>x\<bar>" and "\<bar>x\<bar> < 2 powi (k + 1)" and "- 1022 \<le> k"
    and "\<bar>x - of_int m * 2 powi (k - 52)\<bar> < 2 powi (k - 52) / 2 \<or>
      \<bar>x - of_int m * 2 powi (k - 52)\<bar> = 2 powi (k - 52) / 2 \<and> even m"
  shows "rnd x = of_int m * 2 powi (k - 52)"
proof -
  have e: "ulp_exp x = k - 52"
    using ulp_exp_eval [OF assms(1,2)] assms(3) by simp
  have p: "0 < (2::real) powi (k - 52)" by simp
  have "\<bar>x / 2 powi (k - 52) - of_int m\<bar> = \<bar>x - of_int m * 2 powi (k - 52)\<bar> / 2 powi (k - 52)"
    using p by (simp add: field_simps abs_divide [symmetric] del: power_int_diff)
  then have "\<bar>x / 2 powi (k - 52) - of_int m\<bar> < 1 / 2 \<or>
      \<bar>x / 2 powi (k - 52) - of_int m\<bar> = 1 / 2 \<and> even m"
    using assms(4) p by (simp add: pos_divide_less_eq divide_eq_eq)
  then have "round_even (x / 2 powi (k - 52)) = m" by (rule round_even_near)
  then show ?thesis by (simp add: rnd_def e)
qed



lemma rnd_ge_pow2:
  assumes "2 powi j \<le> y" and "- 1022 \<le> j"
  shows "2 powi j \<le> rnd y"
proof -
  have "0 < (2::real) powi j" by simp
  with assms(1) have pos: "0 < y" by linarith
  define k where "k = \<lfloor>log 2 y\<rfloor>"
  have "real_of_int j \<le> log 2 y"
    using assms(1) pos by (simp add: le_log_iff powr_pow2)
  then have jk: "j \<le> k" by (simp add: k_def le_floor_iff)
  have "real_of_int k \<le> log 2 y" by (simp add: k_def)
  then have ky: "2 powi k \<le> y"
    using pos by (simp add: le_log_iff powr_pow2)
  have e: "ulp_exp y = k - 52"
    using jk assms(2) pos by (simp add: ulp_exp_def k_def)
  have p: "0 < (2::real) powi (k - 52)" by simp
  have "(2::real) powi ((k - 52) + 52) = 2 powi (k - 52) * 2 powi 52"
    by (rule power_int_add) simp
  then have split: "(2::real) powi k = 2 ^ 52 * 2 powi (k - 52)"
    by simp
  have "real_of_int (2 ^ 52) \<le> y / 2 powi (k - 52)"
    using ky p unfolding split by (simp add: pos_le_divide_eq)
  then have "2 ^ 52 \<le> round_even (y / 2 powi (k - 52))" by (rule round_even_lower)
  then have "real_of_int (2 ^ 52) \<le> of_int (round_even (y / 2 powi (k - 52)))"
    by (simp only: of_int_le_iff)
  then have "2 powi k \<le> rnd y"
    using p unfolding split by (simp add: rnd_def e)
  moreover have "(2::real) powi j \<le> 2 powi k"
    using jk by (simp add: power_int_increasing)
  ultimately show ?thesis by linarith
qed

subsection \<open>The operations of Python that the resolver uses\<close>

text \<open>
  A float literal of the source is the double nearest to the decimal number.
  \<open>float_of_int\<close> is the conversion of an \<open>int\<close> operand that meets a \<open>float\<close>; it rounds to
  nearest and raises \<open>OverflowError\<close> beyond the largest double.  \<open>fmul\<close> is the product
  of two floats, which raises nothing and overflows to an infinity; \<open>fle\<close> is \<open>\<le>\<close>.
\<close>

definition float_literal :: "real \<Rightarrow> pyfloat" where
  "float_literal x = to_float x"

definition float_of_int :: "int \<Rightarrow> error + pyfloat" where
  "float_of_int n = (if 2 ^ 1024 \<le> \<bar>rnd (of_int n)\<bar>
     then Inl (OverflowError ''int too large to convert to float'')
     else Inr (Fin (rnd (of_int n))))"

fun fmul :: "pyfloat \<Rightarrow> pyfloat \<Rightarrow> pyfloat" where
  "fmul (Fin x) (Fin y) = to_float (x * y)"
| "fmul NaN y = NaN"
| "fmul x NaN = NaN"
| "fmul (Fin x) PosInf = (if x = 0 then NaN else if 0 < x then PosInf else NegInf)"
| "fmul (Fin x) NegInf = (if x = 0 then NaN else if 0 < x then NegInf else PosInf)"
| "fmul PosInf (Fin y) = (if y = 0 then NaN else if 0 < y then PosInf else NegInf)"
| "fmul NegInf (Fin y) = (if y = 0 then NaN else if 0 < y then NegInf else PosInf)"
| "fmul PosInf PosInf = PosInf"
| "fmul PosInf NegInf = NegInf"
| "fmul NegInf PosInf = NegInf"
| "fmul NegInf NegInf = PosInf"

fun fle :: "pyfloat \<Rightarrow> pyfloat \<Rightarrow> bool" where
  "fle (Fin x) (Fin y) = (x \<le> y)"
| "fle NaN y = False"
| "fle x NaN = False"
| "fle NegInf y = True"
| "fle x PosInf = True"
| "fle PosInf y = False"
| "fle x NegInf = False"

text \<open>
  \<open>abs\<close>, \<open>math.log10\<close> and \<open>math.floor\<close> on a float and \<open>math.ceil\<close> on a number, with
  the exceptions of CPython: \<open>log10\<close> raises \<open>ValueError\<close> at zero and below, \<open>floor\<close> and
  \<open>ceil\<close> raise \<open>OverflowError\<close> at an infinity and \<open>ValueError\<close> at a not-a-number.  The
  logarithm of the C library is taken as correctly rounded.
\<close>

fun py_abs :: "pyfloat \<Rightarrow> pyfloat" where
  "py_abs (Fin x) = Fin \<bar>x\<bar>"
| "py_abs PosInf = PosInf"
| "py_abs NegInf = PosInf"
| "py_abs NaN = NaN"

fun math_log10 :: "pyfloat \<Rightarrow> error + pyfloat" where
  "math_log10 (Fin x) = (if x \<le> 0 then Inl (ValueError ''math domain error'')
     else Inr (to_float (log 10 x)))"
| "math_log10 PosInf = Inr PosInf"
| "math_log10 NegInf = Inl (ValueError ''math domain error'')"
| "math_log10 NaN = Inr NaN"

fun math_floor :: "pyfloat \<Rightarrow> error + int" where
  "math_floor (Fin x) = Inr \<lfloor>x\<rfloor>"
| "math_floor NaN = Inl (ValueError ''cannot convert float NaN to integer'')"
| "math_floor x = Inl (OverflowError ''cannot convert float infinity to integer'')"

fun math_ceil :: "pynum \<Rightarrow> error + int" where
  "math_ceil (PInt a) = Inr a"
| "math_ceil (PFloat (Fin x)) = Inr \<lceil>x\<rceil>"
| "math_ceil (PFloat NaN) = Inl (ValueError ''cannot convert float NaN to integer'')"
| "math_ceil (PFloat x) = Inl (OverflowError ''cannot convert float infinity to integer'')"

text \<open>
  \<open>10 ** k\<close>: an \<open>int\<close> for \<open>k \<ge> 0\<close>; for \<open>k < 0\<close> Python computes the float power
  \<open>10.0 ** k\<close>, taken as correctly rounded (it underflows to zero without an error).
  \<open>py_mul\<close> is \<open>*\<close> and \<open>py_le\<close> is \<open>\<le>\<close> against a float: an \<open>int\<close> times an \<open>int\<close> is
  exact, an \<open>int\<close> that meets a float is converted first, and the comparison of an \<open>int\<close>
  with a float is exact.
\<close>

definition pow10 :: "int \<Rightarrow> pynum" where
  "pow10 k = (if 0 \<le> k then PInt (10 ^ nat k) else PFloat (to_float (10 powi k)))"

fun py_mul :: "pynum \<Rightarrow> pynum \<Rightarrow> error + pynum" where
  "py_mul (PInt a) (PInt b) = Inr (PInt (a * b))"
| "py_mul (PInt a) (PFloat y) = bind_err (float_of_int a) (\<lambda>x. Inr (PFloat (fmul x y)))"
| "py_mul (PFloat x) (PInt b) = bind_err (float_of_int b) (\<lambda>y. Inr (PFloat (fmul x y)))"
| "py_mul (PFloat x) (PFloat y) = Inr (PFloat (fmul x y))"

fun py_le :: "pynum \<Rightarrow> pyfloat \<Rightarrow> bool" where
  "py_le (PInt a) y = fle (Fin (of_int a)) y"
| "py_le (PFloat x) y = fle x y"

text \<open>
  \<open>uncertainties.core.first_digit\<close>, which the resolver consumes:
  \<open>try: return int(math.floor(math.log10(abs(value))))\<close> and
  \<open>except ValueError: return 0\<close>.  Only \<open>ValueError\<close> is caught.
\<close>

definition first_digit :: "pyfloat \<Rightarrow> error + int" where
  "first_digit v = (case bind_err (math_log10 (py_abs v)) math_floor of
       Inl (ValueError m) \<Rightarrow> Inr 0
     | Inl e \<Rightarrow> Inl e
     | Inr k \<Rightarrow> Inr k)"

text \<open>
  \<open>_PDG_precision\<close>, lines 7 to 24 of \<open>monkeypatch.py\<close>.  The argument is the standard
  deviation that the formatter of \<open>uncertainties\<close> passes, a float.  The result is the
  pair of the digit count and the rounded standard deviation, which is an \<open>int\<close> when the
  power of ten is one.
\<close>

definition PDG_precision :: "pyfloat \<Rightarrow> error + (nat \<times> pynum)" where
  "PDG_precision std_dev =
     bind_err (first_digit std_dev) (\<lambda>exponent.
     bind_err (py_mul (PFloat std_dev) (pow10 (- exponent))) (\<lambda>normalized_float.
       if py_le normalized_float (float_literal 1.9) then
         bind_err (py_mul normalized_float (PInt 10)) (\<lambda>t.
         bind_err (math_ceil t) (\<lambda>c.
         bind_err (py_mul (PInt c) (pow10 (exponent - 1))) (\<lambda>r. Inr (2, r))))
       else
         bind_err (math_ceil normalized_float) (\<lambda>c.
         bind_err (py_mul (PInt c) (pow10 exponent)) (\<lambda>r. Inr (1, r)))))"

subsection \<open>Evaluation of the operations\<close>

lemma to_float_eval: "rnd x = r \<Longrightarrow> \<bar>r\<bar> < 2 ^ 1024 \<Longrightarrow> to_float x = Fin r"
  by (simp add: to_float_def)

lemma fmul_eval: "rnd (x * y) = r \<Longrightarrow> \<bar>r\<bar> < 2 ^ 1024 \<Longrightarrow> fmul (Fin x) (Fin y) = Fin r"
  by (simp add: to_float_def)

lemma float_of_int_small:
  assumes "\<bar>n\<bar> < 2 ^ 53"
  shows "float_of_int n = Inr (Fin (of_int n))"
proof -
  have "\<bar>real_of_int n\<bar> < 2 ^ 53"
    using assms by (metis of_int_abs of_int_less_iff of_int_numeral of_int_power)
  then have r: "rnd (of_int n) = of_int n"
    using rnd_exact [of n 0] by simp
  have "\<bar>real_of_int n\<bar> < 2 ^ 1024"
    using \<open>\<bar>real_of_int n\<bar> < 2 ^ 53\<close> by simp
  then show ?thesis by (simp add: float_of_int_def r)
qed

lemma pow10_neg:
  assumes "k < 0"
  shows "pow10 k = PFloat (Fin (rnd (10 powi k)))" and "0 \<le> rnd (10 powi k)"
    and "rnd (10 powi k) \<le> 1"
proof -
  have pos: "0 \<le> (10::real) powi k" by simp
  have "(10::real) powi k \<le> 10 powi 0"
    using assms by (intro power_int_increasing) simp_all
  then have le: "(10::real) powi k \<le> 1" by simp
  have b: "of_int 0 * 2 powi 0 \<le> rnd (10 powi k) \<and> rnd (10 powi k) \<le> of_int 1 * 2 powi 0"
    using pos le by (intro rnd_between) simp_all
  then show "0 \<le> rnd (10 powi k)" and "rnd (10 powi k) \<le> 1" by simp_all
  then have "\<bar>rnd (10 powi k)\<bar> < 2 ^ 1024" by simp
  then show "pow10 k = PFloat (Fin (rnd (10 powi k)))"
    using assms by (simp add: pow10_def to_float_def)
qed

lemma first_digit_log:
  assumes "0 < x" and "real_of_int k \<le> log 10 x" and "log 10 x \<le> real_of_int k + 7 / 8"
    and "\<bar>k\<bar> \<le> 1000"
  shows "first_digit (Fin x) = Inr k"
proof -
  define y where "y = log 10 x"
  have lo: "real_of_int k \<le> y" and hi: "y \<le> real_of_int k + 7 / 8"
    using assms(2,3) by (simp_all add: y_def)
  have "of_int (8 * k) * 2 powi (- 3) \<le> rnd y \<and> rnd y \<le> of_int (8 * k + 7) * 2 powi (- 3)"
  proof (rule rnd_between)
    show "of_int (8 * k) * 2 powi (- 3) \<le> y" using lo by (simp add: power_int_minus)
    show "y \<le> of_int (8 * k + 7) * 2 powi (- 3)" using hi by (simp add: power_int_minus field_simps)
    have "\<bar>y\<bar> \<le> 1001" using lo hi assms(4) by linarith
    then show "\<bar>y\<bar> < 2 powi (- 3 + 53)" by simp
    show "- 1074 \<le> (- 3::int)" by simp
  qed
  then have b: "real_of_int k \<le> rnd y" "rnd y \<le> real_of_int k + 7 / 8"
    by (simp_all add: power_int_minus field_simps)
  then have "\<bar>rnd y\<bar> \<le> 1001" using assms(4) by linarith
  then have fin: "to_float y = Fin (rnd y)" by (simp add: to_float_def)
  have "\<lfloor>rnd y\<rfloor> = k" using b by (intro floor_unique) linarith+
  then show ?thesis
    using assms(1) by (simp add: first_digit_def fin y_def [symmetric])
qed

lemma first_digit_eval:
  assumes "0 < x" and "10 powi k \<le> x" and "x ^ 8 \<le> 10 powi (8 * k + 7)" and "\<bar>k\<bar> \<le> 1000"
  shows "first_digit (Fin x) = Inr k"
proof (rule first_digit_log [OF assms(1) _ _ assms(4)])
  show "real_of_int k \<le> log 10 x"
    using assms(1,2) powr_real_of_int' [of 10 k] by (simp add: le_log_iff)
  have "log 10 (x ^ 8) \<le> real_of_int (8 * k + 7)"
    using assms(1,3) powr_real_of_int' [of 10 "8 * k + 7"]
    by (simp add: log_le_iff del: of_int_add of_int_mult)
  then show "log 10 x \<le> real_of_int k + 7 / 8"
    using assms(1) by (simp add: log_nat_power)
qed

lemma log10_2_bounds: "31 / 103 \<le> log 10 (2::real)" "log 10 (2::real) \<le> 28 / 93"
proof -
  have "real_of_int 31 \<le> log 10 (2 ^ 103)"
    using powr_real_of_int' [of 10 31] by (simp add: le_log_iff del: of_int_numeral)
  then show "31 / 103 \<le> log 10 (2::real)"
    using log_nat_power [of 2 10 103] by simp
  have "log 10 (2 ^ 93) \<le> real_of_int 28"
    using powr_real_of_int' [of 10 28] by (simp add: log_le_iff del: of_int_numeral)
  then show "log 10 (2::real) \<le> 28 / 93"
    using log_nat_power [of 2 10 93] by simp
qed

lemma first_digit_smallest: "first_digit (Fin (1 / 2 ^ 1074)) = Inr (- 324)"
proof (rule first_digit_log)
  have l: "log 10 (1 / 2 ^ 1074) = - (1074 * log 10 (2::real))"
    using log_nat_power [of 2 10 1074] log_divide [of 10 1 "2 ^ 1074"] by simp
  show "real_of_int (- 324) \<le> log 10 (1 / 2 ^ 1074)"
    unfolding l using log10_2_bounds(2) by simp
  show "log 10 (1 / 2 ^ 1074) \<le> real_of_int (- 324) + 7 / 8"
    unfolding l using log10_2_bounds(1) by simp
qed simp_all

lemma float_of_int_overflow:
  "float_of_int (10 ^ 324) = Inl (OverflowError ''int too large to convert to float'')"
proof -
  have "(2::real) powi 1024 \<le> rnd (10 ^ 324)"
    by (rule rnd_ge_pow2) simp_all
  then have "2 ^ 1024 \<le> \<bar>rnd (real_of_int (10 ^ 324))\<bar>" by simp
  then show ?thesis unfolding float_of_int_def by (simp only: if_True)
qed

lemma PDG_precision_two:
  assumes "first_digit s = Inr e" and "py_mul (PFloat s) (pow10 (- e)) = Inr n"
    and "py_le n (float_literal 1.9)" and "py_mul n (PInt 10) = Inr t" and "math_ceil t = Inr c"
    and "py_mul (PInt c) (pow10 (e - 1)) = Inr r"
  shows "PDG_precision s = Inr (2, r)"
  using assms by (simp add: PDG_precision_def)

lemma PDG_precision_one:
  assumes "first_digit s = Inr e" and "py_mul (PFloat s) (pow10 (- e)) = Inr n"
    and "\<not> py_le n (float_literal 1.9)" and "math_ceil n = Inr c"
    and "py_mul (PInt c) (pow10 e) = Inr r"
  shows "PDG_precision s = Inr (1, r)"
  using assms by (simp add: PDG_precision_def)





lemma py_mul_float_int:
  assumes "\<bar>b\<bar> < 2 ^ 53" and "rnd (x * of_int b) = r" and "\<bar>r\<bar> < 2 ^ 1024"
  shows "py_mul (PFloat (Fin x)) (PInt b) = Inr (PFloat (Fin r))"
  using assms by (simp add: float_of_int_small to_float_def)

lemma py_mul_int_float:
  assumes "\<bar>a\<bar> < 2 ^ 53" and "rnd (of_int a * y) = r" and "\<bar>r\<bar> < 2 ^ 1024"
  shows "py_mul (PInt a) (PFloat (Fin y)) = Inr (PFloat (Fin r))"
  using assms by (simp add: float_of_int_small to_float_def)

lemma literal_1_9: "float_literal 1.9 = Fin (8556839292003942 / 2 ^ 52)"
  unfolding float_literal_def
  using rnd_eval [of 0 "1.9" 8556839292003942] by (intro to_float_eval) simp_all

lemma pow10_minus_1: "pow10 (- 1) = PFloat (Fin (7205759403792794 / 2 ^ 56))"
  using rnd_eval [of "- 4" "10 powi (- 1)" 7205759403792794] by (simp add: pow10_neg(1))

lemma pow10_minus_2: "pow10 (- 2) = PFloat (Fin (5764607523034235 / 2 ^ 59))"
  using rnd_eval [of "- 7" "10 powi (- 2)" 5764607523034235] by (simp add: pow10_neg(1))

lemma pow10_minus_6: "pow10 (- 6) = PFloat (Fin (4722366482869645 / 2 ^ 72))"
  using rnd_eval [of "- 20" "10 powi (- 6)" 4722366482869645] by (simp add: pow10_neg(1))

lemma pow10_nonneg: "pow10 0 = PInt 1" "pow10 1 = PInt 10" "pow10 5 = PInt 100000"
  by (simp_all add: pow10_def)

subsection \<open>The resolver at non-positive and at concrete inputs\<close>

lemma first_digit_neg: "first_digit (Fin (- x)) = first_digit (Fin x)"
  by (simp add: first_digit_def)











lemma PDG_precision_inf:
  "PDG_precision PosInf = Inl (OverflowError ''cannot convert float infinity to integer'')"
  "PDG_precision NegInf = Inl (OverflowError ''cannot convert float infinity to integer'')"
  by (simp_all add: PDG_precision_def first_digit_def)

lemma PDG_precision_smallest:
  "PDG_precision (Fin (1 / 2 ^ 1074)) = Inl (OverflowError ''int too large to convert to float'')"
  "PDG_precision (Fin (- (1 / 2 ^ 1074))) = Inl (OverflowError ''int too large to convert to float'')"
proof -
  have p: "py_mul (PFloat s) (pow10 324) = Inl (OverflowError ''int too large to convert to float'')"
    for s
    using float_of_int_overflow by (simp add: pow10_def)
  show "PDG_precision (Fin (1 / 2 ^ 1074)) =
      Inl (OverflowError ''int too large to convert to float'')"
    unfolding PDG_precision_def first_digit_smallest using p by simp
  show "PDG_precision (Fin (- (1 / 2 ^ 1074))) =
      Inl (OverflowError ''int too large to convert to float'')"
    unfolding PDG_precision_def first_digit_neg first_digit_smallest using p by simp
qed

lemma literal_0_23: "float_literal (23 / 100) = Fin (8286623314361713 / 2 ^ 55)"
  unfolding float_literal_def
  using rnd_eval [of "- 3" "23 / 100" 8286623314361713] by (intro to_float_eval) simp_all

lemma literal_0_3: "float_literal (3 / 10) = Fin (5404319552844595 / 2 ^ 54)"
  unfolding float_literal_def
  using rnd_eval [of "- 2" "3 / 10" 5404319552844595] by (intro to_float_eval) simp_all

lemma literal_2_3: "float_literal (23 / 10) = Fin (5179139571476070 / 2 ^ 51)"
  unfolding float_literal_def
  using rnd_eval [of 1 "23 / 10" 5179139571476070] by (intro to_float_eval) simp_all

lemma literal_0_15: "float_literal (15 / 100) = Fin (5404319552844595 / 2 ^ 55)"
  unfolding float_literal_def
  using rnd_eval [of "- 3" "15 / 100" 5404319552844595] by (intro to_float_eval) simp_all

lemma literal_1e_05: "float_literal (1 / 100000) = Fin (5902958103587057 / 2 ^ 69)"
  unfolding float_literal_def
  using rnd_eval [of "- 17" "1 / 100000" 5902958103587057] by (intro to_float_eval) simp_all


lemma eval_0_23:
  "first_digit (Fin (8286623314361713 / 2 ^ 55)) = Inr (- 1)"
  "py_mul (PFloat (Fin (8286623314361713 / 2 ^ 55))) (pow10 (- (- 1))) =
     Inr (PFloat (Fin (5179139571476071 / 2 ^ 51)))"
  "PDG_precision (Fin (8286623314361713 / 2 ^ 55)) =
     Inr (1, PFloat (Fin (5404319552844596 / 2 ^ 54)))"
proof -
  show fd: "first_digit (Fin (8286623314361713 / 2 ^ 55)) = Inr (- 1)"
    by (rule first_digit_eval) (simp_all add: power_divide)
  have "py_mul (PFloat (Fin (8286623314361713 / 2 ^ 55))) (PInt 10) =
      Inr (PFloat (Fin (5179139571476071 / 2 ^ 51)))"
    using rnd_eval [of 1 "8286623314361713 / 2 ^ 55 * 10" 5179139571476071]
    by (intro py_mul_float_int) simp_all
  then show n: "py_mul (PFloat (Fin (8286623314361713 / 2 ^ 55))) (pow10 (- (- 1))) =
      Inr (PFloat (Fin (5179139571476071 / 2 ^ 51)))"
    by (simp add: pow10_nonneg)
  have le: "\<not> py_le (PFloat (Fin (5179139571476071 / 2 ^ 51))) (float_literal 1.9)"
    by (simp add: literal_1_9)
  have c: "math_ceil (PFloat (Fin (5179139571476071 / 2 ^ 51))) = Inr 3"
    by simp
  have r: "py_mul (PInt 3) (pow10 (- 1)) = Inr (PFloat (Fin (5404319552844596 / 2 ^ 54)))"
    unfolding pow10_minus_1
    using rnd_eval [of "- 2" "3 * (7205759403792794 / 2 ^ 56)" 5404319552844596]
    by (intro py_mul_int_float) simp_all
  show "PDG_precision (Fin (8286623314361713 / 2 ^ 55)) =
      Inr (1, PFloat (Fin (5404319552844596 / 2 ^ 54)))"
    by (rule PDG_precision_one [OF fd n le c r])
qed

lemma eval_0_15:
  "first_digit (Fin (5404319552844595 / 2 ^ 55)) = Inr (- 1)"
  "py_mul (PFloat (Fin (5404319552844595 / 2 ^ 55))) (pow10 (- (- 1))) = Inr (PFloat (Fin (3 / 2)))"
  "PDG_precision (Fin (5404319552844595 / 2 ^ 55)) =
     Inr (2, PFloat (Fin (5404319552844595 / 2 ^ 55)))"
proof -
  show fd: "first_digit (Fin (5404319552844595 / 2 ^ 55)) = Inr (- 1)"
    by (rule first_digit_eval) (simp_all add: power_divide)
  have "py_mul (PFloat (Fin (5404319552844595 / 2 ^ 55))) (PInt 10) = Inr (PFloat (Fin (3 / 2)))"
    using rnd_eval [of 0 "5404319552844595 / 2 ^ 55 * 10" 6755399441055744]
    by (intro py_mul_float_int) simp_all
  then show n: "py_mul (PFloat (Fin (5404319552844595 / 2 ^ 55))) (pow10 (- (- 1))) =
      Inr (PFloat (Fin (3 / 2)))"
    by (simp add: pow10_nonneg)
  have le: "py_le (PFloat (Fin (3 / 2))) (float_literal 1.9)"
    by (simp add: literal_1_9)
  have t: "py_mul (PFloat (Fin (3 / 2))) (PInt 10) = Inr (PFloat (Fin 15))"
    using rnd_exact [of 15 0] by (intro py_mul_float_int) simp_all
  have c: "math_ceil (PFloat (Fin 15)) = Inr 15"
    by simp
  have "py_mul (PInt 15) (pow10 (- 2)) = Inr (PFloat (Fin (5404319552844595 / 2 ^ 55)))"
    unfolding pow10_minus_2
    using rnd_eval [of "- 3" "15 * (5764607523034235 / 2 ^ 59)" 5404319552844595]
    by (intro py_mul_int_float) simp_all
  then have r: "py_mul (PInt 15) (pow10 (- 1 - 1)) =
      Inr (PFloat (Fin (5404319552844595 / 2 ^ 55)))"
    by simp
  show "PDG_precision (Fin (5404319552844595 / 2 ^ 55)) =
      Inr (2, PFloat (Fin (5404319552844595 / 2 ^ 55)))"
    by (rule PDG_precision_two [OF fd n le t c r])
qed

lemma eval_19:
  "first_digit (Fin 19) = Inr 1"
  "py_mul (PFloat (Fin 19)) (pow10 (- 1)) = Inr (PFloat (Fin (8556839292003943 / 2 ^ 52)))"
  "PDG_precision (Fin 19) = Inr (1, PInt 20)"
proof -
  show fd: "first_digit (Fin 19) = Inr 1"
    by (rule first_digit_eval) simp_all
  show n: "py_mul (PFloat (Fin 19)) (pow10 (- 1)) = Inr (PFloat (Fin (8556839292003943 / 2 ^ 52)))"
    unfolding pow10_minus_1 py_mul.simps
    using rnd_eval [of 0 "19 * (7205759403792794 / 2 ^ 56)" 8556839292003943]
    by (simp add: to_float_def)
  have le: "\<not> py_le (PFloat (Fin (8556839292003943 / 2 ^ 52))) (float_literal 1.9)"
    by (simp add: literal_1_9)
  have c: "math_ceil (PFloat (Fin (8556839292003943 / 2 ^ 52))) = Inr 2"
    by simp
  have r: "py_mul (PInt 2) (pow10 1) = Inr (PInt 20)"
    by (simp add: pow10_nonneg)
  show "PDG_precision (Fin 19) = Inr (1, PInt 20)"
    by (rule PDG_precision_one [OF fd n le c r])
qed

lemma eval_12: "PDG_precision (Fin 12) = Inr (2, PInt 13)"
proof -
  have fd: "first_digit (Fin 12) = Inr 1"
    by (rule first_digit_eval) simp_all
  have n: "py_mul (PFloat (Fin 12)) (pow10 (- 1)) = Inr (PFloat (Fin (5404319552844596 / 2 ^ 52)))"
    unfolding pow10_minus_1 py_mul.simps
    using rnd_eval [of 0 "12 * (7205759403792794 / 2 ^ 56)" 5404319552844596]
    by (simp add: to_float_def)
  have le: "py_le (PFloat (Fin (5404319552844596 / 2 ^ 52))) (float_literal 1.9)"
    by (simp add: literal_1_9)
  have t: "py_mul (PFloat (Fin (5404319552844596 / 2 ^ 52))) (PInt 10) =
      Inr (PFloat (Fin (6755399441055745 / 2 ^ 49)))"
    using rnd_eval [of 3 "5404319552844596 / 2 ^ 52 * 10" 6755399441055745]
    by (intro py_mul_float_int) simp_all
  have c: "math_ceil (PFloat (Fin (6755399441055745 / 2 ^ 49))) = Inr 13"
    by simp
  have r: "py_mul (PInt 13) (pow10 (1 - 1)) = Inr (PInt 13)"
    by (simp add: pow10_nonneg)
  show ?thesis
    by (rule PDG_precision_two [OF fd n le t c r])
qed

lemma eval_1e_05:
  "PDG_precision (Fin (5902958103587057 / 2 ^ 69)) =
     Inr (2, PFloat (Fin (5902958103587056 / 2 ^ 69)))"
proof -
  have fd: "first_digit (Fin (5902958103587057 / 2 ^ 69)) = Inr (- 5)"
    by (rule first_digit_eval) (simp_all add: power_divide)
  have "py_mul (PFloat (Fin (5902958103587057 / 2 ^ 69))) (PInt 100000) = Inr (PFloat (Fin 1))"
    using rnd_eval [of 0 "5902958103587057 / 2 ^ 69 * 100000" 4503599627370496]
    by (intro py_mul_float_int) simp_all
  then have n: "py_mul (PFloat (Fin (5902958103587057 / 2 ^ 69))) (pow10 (- (- 5))) =
      Inr (PFloat (Fin 1))"
    by (simp add: pow10_nonneg)
  have le: "py_le (PFloat (Fin 1)) (float_literal 1.9)"
    by (simp add: literal_1_9)
  have t: "py_mul (PFloat (Fin 1)) (PInt 10) = Inr (PFloat (Fin 10))"
    using rnd_exact [of 10 0] by (intro py_mul_float_int) simp_all
  have c: "math_ceil (PFloat (Fin 10)) = Inr 10"
    by simp
  have "py_mul (PInt 10) (pow10 (- 6)) = Inr (PFloat (Fin (5902958103587056 / 2 ^ 69)))"
    unfolding pow10_minus_6
    using rnd_eval [of "- 17" "10 * (4722366482869645 / 2 ^ 72)" 5902958103587056]
    by (intro py_mul_int_float) simp_all
  then have r: "py_mul (PInt 10) (pow10 (- 5 - 1)) =
      Inr (PFloat (Fin (5902958103587056 / 2 ^ 69)))"
    by simp
  show ?thesis
    by (rule PDG_precision_two [OF fd n le t c r])
qed


subsection \<open>Claims about the resolver\<close>

text \<open>
  C1: for every \<open>std_dev > 0\<close> the rounded standard deviation is at least \<open>std_dev\<close>.
  The code fails this at \<open>std_dev = 1e-05\<close>, the double \<open>5902958103587057 / 2 ^ 69\<close>: the
  exponent is \<open>-5\<close>, the normalized value is \<open>1.0\<close>, the ceiling of ten times it is \<open>10\<close>,
  and the product of \<open>10\<close> and the double \<open>10 ** -6\<close> rounds to
  \<open>5902958103587056 / 2 ^ 69\<close>, printed \<open>9.999999999999999e-06\<close>: one unit in the last
  place below the input.
\<close>

theorem PDG_precision_understates:
  "float_literal (1 / 100000) = Fin (5902958103587057 / 2 ^ 69) \<and>
   PDG_precision (float_literal (1 / 100000)) =
     Inr (2, PFloat (Fin (5902958103587056 / 2 ^ 69))) \<and>
   \<not> fle (float_literal (1 / 100000)) (Fin (5902958103587056 / 2 ^ 69))"
  unfolding literal_1e_05 using eval_1e_05 by simp

text \<open>
  C2: with \<open>exponent\<close> the integer that puts \<open>normalized = std_dev / 10 ^ exponent\<close> into
  \<open>[1, 10)\<close>, the result is \<open>(2, ceil(normalized * 10) * 10 ^ (exponent - 1))\<close> when
  \<open>normalized \<le> 1.9\<close> and \<open>(1, ceil(normalized) * 10 ^ exponent)\<close> otherwise.  The code
  fails this at \<open>std_dev = 19.0\<close>, where the claim gives \<open>(2, 19)\<close>: the code multiplies by
  the double \<open>10 ** -1\<close>, the product is \<open>1.9000000000000001\<close>, above the double \<open>1.9\<close>, and
  the result is \<open>(1, 20)\<close>.  At \<open>12.0\<close> the claim gives \<open>(2, 12)\<close> and the code \<open>(2, 13)\<close>.
  At the smallest positive double and at infinity the code returns no pair: it raises
  \<open>OverflowError\<close>.
\<close>

theorem PDG_precision_at_19:
  "first_digit (Fin 19) = Inr 1 \<and>
   py_mul (PFloat (Fin 19)) (pow10 (- 1)) = Inr (PFloat (Fin (8556839292003943 / 2 ^ 52))) \<and>
   float_literal 1.9 = Fin (8556839292003942 / 2 ^ 52) \<and>
   PDG_precision (Fin 19) = Inr (1, PInt 20) \<and>
   PDG_precision (Fin 12) = Inr (2, PInt 13) \<and>
   PDG_precision (Fin (1 / 2 ^ 1074)) =
     Inl (OverflowError ''int too large to convert to float'') \<and>
   PDG_precision PosInf = Inl (OverflowError ''cannot convert float infinity to integer'')"
  using eval_19 eval_12 literal_1_9 PDG_precision_smallest(1) PDG_precision_inf(1)
  by (intro conjI)




text \<open>
  C8: \<open>resolve(0.23)\<close> has exponent \<open>-1\<close>, normalized \<open>2.3\<close> and returns \<open>(1, 0.3)\<close>;
  \<open>resolve(0.15)\<close> has exponent \<open>-1\<close>, normalized \<open>1.5\<close> and returns \<open>(2, 0.15)\<close>.  The code
  agrees at \<open>0.15\<close> and on both exponents.  At \<open>0.23\<close> its normalized value is the double
  \<open>5179139571476071 / 2 ^ 51\<close>, printed \<open>2.3000000000000003\<close>, where the double \<open>2.3\<close> is
  \<open>5179139571476070 / 2 ^ 51\<close>; and it returns \<open>3 * 10 ** -1\<close>, the double
  \<open>5404319552844596 / 2 ^ 54\<close>, printed \<open>0.30000000000000004\<close>, where the double \<open>0.3\<close> is
  \<open>5404319552844595 / 2 ^ 54\<close>.
\<close>

theorem PDG_precision_spec_examples:
  "first_digit (float_literal (23 / 100)) = Inr (- 1) \<and>
   py_mul (PFloat (float_literal (23 / 100))) (pow10 (- (- 1))) =
     Inr (PFloat (Fin (5179139571476071 / 2 ^ 51))) \<and>
   float_literal (23 / 10) = Fin (5179139571476070 / 2 ^ 51) \<and>
   PDG_precision (float_literal (23 / 100)) =
     Inr (1, PFloat (Fin (5404319552844596 / 2 ^ 54))) \<and>
   float_literal (3 / 10) = Fin (5404319552844595 / 2 ^ 54) \<and>
   first_digit (float_literal (15 / 100)) = Inr (- 1) \<and>
   py_mul (PFloat (float_literal (15 / 100))) (pow10 (- (- 1))) = Inr (PFloat (Fin (3 / 2))) \<and>
   PDG_precision (float_literal (15 / 100)) = Inr (2, PFloat (float_literal (15 / 100)))"
  unfolding literal_0_23 literal_0_15 literal_0_3 literal_2_3
  using eval_0_23 eval_0_15 by (intro conjI refl)

section \<open>The uncertainty string formatter (\<open>write_table\<close>, branch \<open>if uarray:\<close>)\<close>

text \<open>
  Both \<open>lab_tool/write_table.py\<close> (lines 59 to 68) and \<open>labtool/src/functions.py\<close>
  (lines 110 to 119) post-process the serialized table \<open>df_str\<close> in three steps:
  \<open>df_str.replace('"', '')\<close>, then \<open>re.sub(r"(\d)\+/-(\d)", r"\1 SYM \2", df_str)\<close>, then
  \<open>re.sub(r"\((\d+\.?\d*) SYM (\d+\.?\d*)\)e", r"\1 SYM \2 e", df_str)\<close>, where \<open>SYM\<close> is the
  three characters backslash, p, m in \<open>write_table.py\<close> and the two characters \<open>+-\<close> in
  \<open>functions.py\<close>.  The two files differ in nothing else, so the steps take the symbol as
  the parameter \<open>symb\<close>.  The steps run on the whole string, of which a cell is a part.

  A Python \<open>str\<close> is a sequence of Unicode code points: here a list of natural
  numbers, \<open>ustring\<close>.  \<open>ord c\<close> is the code point of an ASCII character and \<open>uni s\<close>
  the code points of an ASCII literal; \<open>dquote\<close> and \<open>backslash\<close> are the code points 34 and 92.
\<close>

type_synonym ustring = "nat list"

abbreviation ord :: "char \<Rightarrow> nat" where
  "ord \<equiv> of_char"

abbreviation uni :: "string \<Rightarrow> ustring" where
  "uni \<equiv> map of_char"

abbreviation dquote :: nat where
  "dquote \<equiv> ord (CHR 0x22)"

abbreviation backslash :: nat where
  "backslash \<equiv> ord (CHR 0x5C)"

text \<open>
  \<open>\d\<close> in a \<open>str\<close> pattern without \<open>re.ASCII\<close> matches the characters of the Unicode
  category Nd (decimal digit).  The table is the one of the Unicode database 14.0.0,
  which CPython 3.10 and 3.11 carry: 62 ranges, inclusive on both sides, the first being
  the ASCII digits.  Later versions of the database add ranges, none below the code
  point 128.
\<close>

definition decimal_ranges :: "(nat \<times> nat) list" where
  "decimal_ranges =
    [(48, 57), (1632, 1641), (1776, 1785), (1984, 1993), (2406, 2415), (2534, 2543),
     (2662, 2671), (2790, 2799), (2918, 2927), (3046, 3055), (3174, 3183), (3302, 3311),
     (3430, 3439), (3558, 3567), (3664, 3673), (3792, 3801), (3872, 3881), (4160, 4169),
     (4240, 4249), (6112, 6121), (6160, 6169), (6470, 6479), (6608, 6617), (6784, 6793),
     (6800, 6809), (6992, 7001), (7088, 7097), (7232, 7241), (7248, 7257), (42528, 42537),
     (43216, 43225), (43264, 43273), (43472, 43481), (43504, 43513), (43600, 43609),
     (44016, 44025), (65296, 65305), (66720, 66729), (68912, 68921), (69734, 69743),
     (69872, 69881), (69942, 69951), (70096, 70105), (70384, 70393), (70736, 70745),
     (70864, 70873), (71248, 71257), (71360, 71369), (71472, 71481), (71904, 71913),
     (72016, 72025), (72784, 72793), (73040, 73049), (73120, 73129), (92768, 92777),
     (92864, 92873), (93008, 93017), (120782, 120831), (123200, 123209), (123632, 123641),
     (125264, 125273), (130032, 130041)]"

definition is_digit :: "nat \<Rightarrow> bool" where
  "is_digit c = list_ex (\<lambda>(lo, hi). lo \<le> c \<and> c \<le> hi) decimal_ranges"

text \<open>The symbol of each file.\<close>

definition pm_tex :: ustring where
  "pm_tex = backslash # uni ''pm''"

definition pm_plain :: ustring where
  "pm_plain = uni ''+-''"

text \<open>\<open>df_str.replace('"', '')\<close>.\<close>

definition delete_quotes :: "ustring \<Rightarrow> ustring" where
  "delete_quotes s = filter (\<lambda>c. c \<noteq> dquote) s"

text \<open>
  \<open>re.sub(r"(\d)\+/-(\d)", r"\1 SYM \2", df_str)\<close>.  The pattern has the fixed length 5.
  \<open>re.sub\<close> scans from the left; where the pattern matches it emits the replacement and
  goes on behind the match, so the second digit is consumed; elsewhere it copies one
  character.  Fewer than five characters cannot match.
\<close>

fun sub_plus_minus :: "ustring \<Rightarrow> ustring \<Rightarrow> ustring" where
  "sub_plus_minus symb (a # b # c # d # e # rest) =
     (if is_digit a \<and> b = ord CHR ''+'' \<and> c = ord CHR ''/'' \<and> d = ord CHR ''-'' \<and> is_digit e
      then a # uni '' '' @ symb @ uni '' '' @ e # sub_plus_minus symb rest
      else a # sub_plus_minus symb (b # c # d # e # rest))"
| "sub_plus_minus symb s = s"

text \<open>
  The group \<open>(\d+\.?\d*)\<close> at the head of a string: the longest run of digits, which must
  not be empty, an optional dot, and the longest run of digits after it; the result is
  the group and the rest.  In the pattern each group is followed by a space or by a
  closing parenthesis, which is neither a digit nor a dot, so no shorter choice of the
  backtracking matcher can succeed where this one fails (lemmas \<open>take_number_Some\<close> and
  \<open>take_number_append\<close> below: the group is found exactly when the string starts with a
  number followed by such a character).
\<close>

definition take_number :: "ustring \<Rightarrow> (ustring \<times> ustring) option" where
  "take_number s =
     (let ds = takeWhile is_digit s; r1 = dropWhile is_digit s
      in if ds = [] then None
         else (case r1 of
                 [] \<Rightarrow> Some (ds, [])
               | c # r2 \<Rightarrow>
                   if c = ord CHR ''.''
                   then Some (ds @ c # takeWhile is_digit r2, dropWhile is_digit r2)
                   else Some (ds, r1)))"

text \<open>A literal piece of the pattern at the head of a string.\<close>

definition strip_prefix :: "ustring \<Rightarrow> ustring \<Rightarrow> ustring option" where
  "strip_prefix p s = (if take (length p) s = p then Some (drop (length p) s) else None)"

text \<open>
  A match of \<open>\((\d+\.?\d*) SYM (\d+\.?\d*)\)e\<close> at the head of a string: the two groups and
  the rest behind the match.
\<close>

definition match_paren :: "ustring \<Rightarrow> ustring \<Rightarrow> (ustring \<times> ustring \<times> ustring) option" where
  "match_paren symb s =
     (case s of
        [] \<Rightarrow> None
      | c # s1 \<Rightarrow>
          if c \<noteq> ord CHR ''('' then None
          else (case take_number s1 of
                  None \<Rightarrow> None
                | Some (A, s2) \<Rightarrow>
                    (case strip_prefix (uni '' '' @ symb @ uni '' '') s2 of
                       None \<Rightarrow> None
                     | Some s3 \<Rightarrow>
                         (case take_number s3 of
                            None \<Rightarrow> None
                          | Some (B, s4) \<Rightarrow>
                              (case strip_prefix (uni '')e'') s4 of
                                 None \<Rightarrow> None
                               | Some s5 \<Rightarrow> Some (A, B, s5))))))"

text \<open>
  The strings of the language of \<open>\d+\.?\d*\<close>: digits, or digits, a dot and digits (possibly
  none after the dot).
\<close>

definition is_number :: "ustring \<Rightarrow> bool" where
  "is_number n =
     (takeWhile is_digit n \<noteq> [] \<and>
      (case dropWhile is_digit n of
         [] \<Rightarrow> True
       | c # fs \<Rightarrow> c = ord CHR ''.'' \<and> list_all is_digit fs))"

subsection \<open>Numbers and the match at the head\<close>

lemma not_digit:
  "\<not> is_digit (ord CHR ''.'')" "\<not> is_digit (ord CHR '' '')" "\<not> is_digit (ord CHR ''('')"
  "\<not> is_digit (ord CHR '')'')" "\<not> is_digit (ord CHR ''e'')" "\<not> is_digit (ord CHR ''+'')"
  "\<not> is_digit (ord CHR ''/'')" "\<not> is_digit (ord CHR ''-'')" "\<not> is_digit dquote"
  by (simp_all add: is_digit_def decimal_ranges_def)

lemmas not_digit_code [simp] = not_digit [simplified]

lemma digits_span:
  assumes "list_all is_digit ds" and "t = [] \<or> \<not> is_digit (hd t)"
  shows "takeWhile is_digit (ds @ t) = ds" and "dropWhile is_digit (ds @ t) = t"
proof -
  have t: "takeWhile is_digit t = []" "dropWhile is_digit t = t"
    using assms(2) by (cases t; simp)+
  show "takeWhile is_digit (ds @ t) = ds" "dropWhile is_digit (ds @ t) = t"
    using assms(1) t by (induction ds) simp_all
qed

lemma takeWhile_digits: "list_all is_digit (takeWhile is_digit s)"
  by (induction s) simp_all

lemma digits_number:
  assumes "ds \<noteq> []" and "list_all is_digit ds"
  shows "is_number ds"
proof -
  have tw: "takeWhile is_digit ds = ds" and dw: "dropWhile is_digit ds = []"
    using digits_span [OF assms(2), of "[]"] by simp_all
  show ?thesis
    unfolding is_number_def tw dw using assms(1) by simp
qed

lemma dotted_number:
  assumes "ds \<noteq> []" and "list_all is_digit ds" and "list_all is_digit fs"
  shows "is_number (ds @ ord CHR ''.'' # fs)"
proof -
  have tw: "takeWhile is_digit (ds @ ord CHR ''.'' # fs) = ds"
    and dw: "dropWhile is_digit (ds @ ord CHR ''.'' # fs) = ord CHR ''.'' # fs"
    using digits_span [OF assms(2), of "ord CHR ''.'' # fs"] by simp_all
  show ?thesis
    unfolding is_number_def tw dw using assms(1,3) by simp
qed

lemma take_number_Some:
  assumes "take_number s = Some (n, r)"
  shows "s = n @ r" and "is_number n"
proof -
  let ?ds = "takeWhile is_digit s"
  have ne: "?ds \<noteq> []"
    using assms by (auto simp: take_number_def Let_def split: if_splits)
  have ds: "list_all is_digit ?ds" by (rule takeWhile_digits)
  have id: "s = ?ds @ dropWhile is_digit s" by simp
  show "s = n @ r" and "is_number n"
  proof (atomize (full), cases "dropWhile is_digit s")
    case Nil
    from assms ne have "n = ?ds" "r = []"
      unfolding take_number_def Let_def Nil by simp_all
    moreover have "s = ?ds" using id Nil by simp
    moreover have "is_number ?ds"
      using ne ds by (rule digits_number)
    ultimately show "s = n @ r \<and> is_number n" by simp
  next
    case (Cons c r2)
    show "s = n @ r \<and> is_number n"
    proof (cases "c = ord CHR ''.''")
      case True
      let ?fs = "takeWhile is_digit r2"
      from assms ne True have nr: "n = ?ds @ c # ?fs" "r = dropWhile is_digit r2"
        unfolding take_number_def Let_def Cons by simp_all
      have "s = ?ds @ c # (?fs @ dropWhile is_digit r2)"
        using id Cons by simp
      then have 1: "s = n @ r" using nr by simp
      have "is_number n"
        unfolding nr(1) True using ne ds takeWhile_digits [of r2] by (rule dotted_number)
      with 1 show ?thesis by simp
    next
      case False
      from assms ne False have nr: "n = ?ds" "r = c # r2"
        unfolding take_number_def Let_def Cons by simp_all
      have "is_number ?ds"
        using ne ds by (rule digits_number)
      with nr id Cons show ?thesis by simp
    qed
  qed
qed

lemma is_number_cases:
  assumes "is_number n"
  obtains (whole) "n \<noteq> []" "list_all is_digit n"
  | (dotted) ds fs where "ds \<noteq> []" "list_all is_digit ds" "list_all is_digit fs"
      "n = ds @ ord CHR ''.'' # fs"
proof (cases "dropWhile is_digit n")
  case Nil
  then have "n = takeWhile is_digit n"
    by (metis append_Nil2 takeWhile_dropWhile_id)
  then have "list_all is_digit n" "n \<noteq> []"
    using assms takeWhile_digits [of n] by (auto simp: is_number_def)
  then show ?thesis using whole by blast
next
  case (Cons c fs)
  then have "c = ord CHR ''.''" "list_all is_digit fs" "takeWhile is_digit n \<noteq> []"
    using assms by (simp_all add: is_number_def)
  moreover have "n = takeWhile is_digit n @ c # fs"
    using Cons by (metis takeWhile_dropWhile_id)
  ultimately show ?thesis
    using dotted [of "takeWhile is_digit n" fs] takeWhile_digits [of n] by blast
qed

lemma is_number_iff:
  "is_number n \<longleftrightarrow>
     (\<exists>ds fs. ds \<noteq> [] \<and> list_all is_digit ds \<and> list_all is_digit fs \<and>
        (n = ds \<or> n = ds @ ord CHR ''.'' # fs))"
proof
  assume "is_number n"
  then show "\<exists>ds fs. ds \<noteq> [] \<and> list_all is_digit ds \<and> list_all is_digit fs \<and>
        (n = ds \<or> n = ds @ ord CHR ''.'' # fs)"
  proof (cases rule: is_number_cases)
    case whole
    then have "n \<noteq> [] \<and> list_all is_digit n \<and> list_all is_digit [] \<and>
        (n = n \<or> n = n @ ord CHR ''.'' # [])"
      by simp
    then show ?thesis by blast
  next
    case (dotted ds fs)
    then show ?thesis by blast
  qed
next
  assume "\<exists>ds fs. ds \<noteq> [] \<and> list_all is_digit ds \<and> list_all is_digit fs \<and>
        (n = ds \<or> n = ds @ ord CHR ''.'' # fs)"
  then show "is_number n"
    using digits_number dotted_number by blast
qed

lemma number_nonempty: "is_number n \<Longrightarrow> n \<noteq> []"
  by (auto simp: is_number_def)

lemma number_hd: "is_number n \<Longrightarrow> is_digit (hd n)"
  by (cases n) (auto simp: is_number_def split: if_splits)

lemma number_chars: "is_number n \<Longrightarrow> c \<in> set n \<Longrightarrow> is_digit c \<or> c = ord CHR ''.''"
  by (erule is_number_cases) (auto simp: list_all_iff)

lemma take_number_append:
  assumes "is_number n" and "t = [] \<or> (\<not> is_digit (hd t) \<and> hd t \<noteq> ord CHR ''.'')"
  shows "take_number (n @ t) = Some (n, t)"
  using assms(1)
proof (cases rule: is_number_cases)
  case whole
  have tw: "takeWhile is_digit (n @ t) = n" and dw: "dropWhile is_digit (n @ t) = t"
    using digits_span [OF whole(2), of t] assms(2) by auto
  show ?thesis
    unfolding take_number_def Let_def tw dw
    using whole(1) assms(2) by (cases t) simp_all
next
  case (dotted ds fs)
  have tw: "takeWhile is_digit (n @ t) = ds"
    and dw: "dropWhile is_digit (n @ t) = ord CHR ''.'' # fs @ t"
    using digits_span [OF dotted(2), of "ord CHR ''.'' # fs @ t"] dotted(4) by simp_all
  have tw': "takeWhile is_digit (fs @ t) = fs" and dw': "dropWhile is_digit (fs @ t) = t"
    using digits_span [OF dotted(3), of t] assms(2) by auto
  show ?thesis
    unfolding take_number_def Let_def tw dw
    using dotted(1,4) tw' dw' by simp
qed

lemma take_number_length:
  "take_number s = Some (n, r) \<Longrightarrow> length r < length s"
  using take_number_Some [of s n r] number_nonempty [of n] by auto

lemma strip_prefix_length: "strip_prefix p s = Some r \<Longrightarrow> length r \<le> length s"
  by (auto simp: strip_prefix_def split: if_splits)

lemma match_paren_length: "match_paren symb s = Some (A, B, r) \<Longrightarrow> length r < length s"
  by (auto simp: match_paren_def split: list.splits if_splits option.splits prod.splits
      dest!: take_number_length strip_prefix_length)

text \<open>
  \<open>re.sub(r"\((\d+\.?\d*) SYM (\d+\.?\d*)\)e", r"\1 SYM \2 e", df_str)\<close>, scanning from the left
  as above; the recursion goes on behind the match, which is shorter than the string.
\<close>

function sub_paren :: "ustring \<Rightarrow> ustring \<Rightarrow> ustring" where
  "sub_paren symb [] = []"
| "sub_paren symb (c # cs) =
     (case match_paren symb (c # cs) of
        Some (A, B, rest) \<Rightarrow> A @ uni '' '' @ symb @ uni '' '' @ B @ uni '' e'' @ sub_paren symb rest
      | None \<Rightarrow> c # sub_paren symb cs)"
  by pat_completeness auto
termination
  by (relation "measure (\<lambda>(symb, s). length s)") (auto dest: match_paren_length)

text \<open>The three steps in the order of the source, and the two files.\<close>

definition uarray_post :: "ustring \<Rightarrow> ustring \<Rightarrow> ustring" where
  "uarray_post symb df_str = sub_paren symb (sub_plus_minus symb (delete_quotes df_str))"

definition write_table_tex :: "ustring \<Rightarrow> ustring" where
  "write_table_tex = uarray_post pm_tex"

definition write_table_plain :: "ustring \<Rightarrow> ustring" where
  "write_table_plain = uarray_post pm_plain"

lemma strip_prefix_Some: "strip_prefix p s = Some r \<longleftrightarrow> s = p @ r"
  by (auto simp: strip_prefix_def split: if_splits) (metis append_take_drop_id)

lemma match_paren_Some:
  assumes "match_paren symb s = Some (A, B, r)"
  shows "s = ord CHR ''('' # A @ uni '' '' @ symb @ uni '' '' @ B @ uni '')e'' @ r"
    and "is_number A" and "is_number B"
proof -
  from assms obtain s1 s2 s3 s4 where
    s: "s = ord CHR ''('' # s1" and
    a: "take_number s1 = Some (A, s2)" and
    p: "strip_prefix (uni '' '' @ symb @ uni '' '') s2 = Some s3" and
    b: "take_number s3 = Some (B, s4)" and
    q: "strip_prefix (uni '')e'') s4 = Some r"
    by (auto simp: match_paren_def split: list.splits if_splits option.splits prod.splits)
  show "is_number A" "is_number B"
    using take_number_Some(2) a b by blast+
  have "s1 = A @ s2" "s3 = B @ s4"
    using take_number_Some(1) a b by blast+
  moreover have "s2 = (uni '' '' @ symb @ uni '' '') @ s3" "s4 = uni '')e'' @ r"
    using p q by (simp_all only: strip_prefix_Some)
  ultimately show "s = ord CHR ''('' # A @ uni '' '' @ symb @ uni '' '' @ B @ uni '')e'' @ r"
    using s by simp
qed

lemma match_paren_intro:
  assumes "is_number A" and "is_number B"
  shows "match_paren symb (ord CHR ''('' # A @ uni '' '' @ symb @ uni '' '' @ B @ uni '')e'' @ r) = Some (A, B, r)"
proof -
  have a: "take_number (A @ uni '' '' @ symb @ uni '' '' @ B @ uni '')e'' @ r)
             = Some (A, uni '' '' @ symb @ uni '' '' @ B @ uni '')e'' @ r)"
    using take_number_append [OF assms(1), of "uni '' '' @ symb @ uni '' '' @ B @ uni '')e'' @ r"] by simp
  have p: "strip_prefix (uni '' '' @ symb @ uni '' '') (uni '' '' @ symb @ uni '' '' @ B @ uni '')e'' @ r)
             = Some (B @ uni '')e'' @ r)"
    by (simp only: strip_prefix_Some) simp
  have b: "take_number (B @ uni '')e'' @ r) = Some (B, uni '')e'' @ r)"
    using take_number_append [OF assms(2), of "uni '')e'' @ r"] by simp
  have q: "strip_prefix (uni '')e'') (uni '')e'' @ r) = Some r"
    by (simp only: strip_prefix_Some)
  show ?thesis
    using a p b q by (simp add: match_paren_def)
qed

subsection \<open>Occurrences of the two patterns\<close>

text \<open>
  \<open>pm_occurs s\<close>: somewhere in \<open>s\<close> a digit is followed by \<open>+/-\<close> and a digit.
  \<open>paren_occurs symb s\<close>: somewhere in \<open>s\<close> the parenthesized pattern matches.
  The lemmas \<open>pm_occurs_iff\<close> and \<open>paren_occurs_iff\<close> below state them in terms of
  substrings.  \<open>pm_consumed pre\<close>: the scan of the plus-minus substitution over \<open>pre\<close>
  followed by a digit ends inside a match, of which that digit is the second digit: the
  scan, run as in \<open>sub_plus_minus\<close>, is left with a digit and \<open>+/-\<close>.
\<close>

fun pm_occurs :: "ustring \<Rightarrow> bool" where
  "pm_occurs (a # b # c # d # e # rest) =
     ((is_digit a \<and> b = ord CHR ''+'' \<and> c = ord CHR ''/'' \<and> d = ord CHR ''-'' \<and> is_digit e)
      \<or> pm_occurs (b # c # d # e # rest))"
| "pm_occurs s = False"

fun paren_occurs :: "ustring \<Rightarrow> ustring \<Rightarrow> bool" where
  "paren_occurs symb [] = False"
| "paren_occurs symb (c # cs) = (match_paren symb (c # cs) \<noteq> None \<or> paren_occurs symb cs)"


text \<open>
  What the proofs need of the symbol: it contains no parenthesis, no letter e, no slash
  and no double quote.  Both symbols of the source are of this kind.
\<close>

definition symbol_ok :: "ustring \<Rightarrow> bool" where
  "symbol_ok symb = list_all (\<lambda>c. c \<notin> set (uni ''()e/'') \<and> c \<noteq> dquote) symb"

subsection \<open>The plus-minus substitution\<close>

lemma symbol_ok_pm [simp]: "symbol_ok pm_tex" "symbol_ok pm_plain"
  by (simp_all add: symbol_ok_def pm_tex_def pm_plain_def)

lemma symbol_okD:
  assumes "symbol_ok symb" and "c \<in> set symb"
  shows "c \<noteq> ord CHR ''(''" "c \<noteq> ord CHR '')''" "c \<noteq> ord CHR ''e''" "c \<noteq> ord CHR ''/''" "c \<noteq> dquote"
  using assms by (auto simp: symbol_ok_def list_all_iff)

lemma sub_pm_identity: "\<not> pm_occurs s \<Longrightarrow> sub_plus_minus symb s = s"
  by (induction symb s rule: sub_plus_minus.induct) auto

lemma sub_pm_nondigit: "\<not> is_digit a \<Longrightarrow> sub_plus_minus symb (a # s) = a # sub_plus_minus symb s"
  by (cases "(symb, a # s)" rule: sub_plus_minus.cases) auto

lemma sub_pm_step:
  "length s < 2 \<or> s ! 1 \<noteq> ord CHR ''/'' \<Longrightarrow> sub_plus_minus symb (a # s) = a # sub_plus_minus symb s"
  by (cases "(symb, a # s)" rule: sub_plus_minus.cases) auto

lemma sub_pm_prefix:
  assumes "ord CHR ''/'' \<notin> set w" and "\<not> is_digit x" and "\<not> is_digit y"
    and "x \<noteq> ord CHR ''/''" and "y \<noteq> ord CHR ''/''"
  shows "sub_plus_minus symb (w @ x # y # t) = w @ x # y # sub_plus_minus symb t"
  using assms(1)
proof (induction w)
  case Nil
  show ?case using assms(2,3) by (simp add: sub_pm_nondigit)
next
  case (Cons a w)
  have "(w @ x # y # t) ! 1 \<noteq> ord CHR ''/''"
  proof (cases w)
    case Nil
    then show ?thesis using assms(5) by simp
  next
    case (Cons b w')
    then show ?thesis using Cons.prems assms(4) by (cases w') auto
  qed
  then have "sub_plus_minus symb (a # (w @ x # y # t)) = a # sub_plus_minus symb (w @ x # y # t)"
    by (intro sub_pm_step) simp
  with Cons show ?case by simp
qed


subsection \<open>The parenthesized pattern and the pipeline\<close>

lemma match_paren_iff:
  "match_paren symb s = Some (A, B, r) \<longleftrightarrow>
     s = ord CHR ''('' # A @ uni '' '' @ symb @ uni '' '' @ B @ uni '')e'' @ r \<and> is_number A \<and> is_number B"
  using match_paren_Some [of symb s A B r] match_paren_intro [of A B symb r] by blast

lemma delete_quotes_append: "delete_quotes (xs @ ys) = delete_quotes xs @ delete_quotes ys"
  by (simp add: delete_quotes_def)

lemma delete_quotes_id: "dquote \<notin> set xs \<Longrightarrow> delete_quotes xs = xs"
  by (induction xs) (auto simp: delete_quotes_def)

lemma delete_quotes_set: "dquote \<notin> set (delete_quotes xs)"
  by (simp add: delete_quotes_def)

lemma number_avoids:
  assumes "is_number n"
  shows "dquote \<notin> set n" "ord CHR ''/'' \<notin> set n" "ord CHR ''('' \<notin> set n"
    "ord CHR '')'' \<notin> set n" "ord CHR ''e'' \<notin> set n" "ord CHR '' '' \<notin> set n"
  using number_chars [OF assms, of "dquote"] number_chars [OF assms, of "ord CHR ''/''"]
    number_chars [OF assms, of "ord CHR ''(''"] number_chars [OF assms, of "ord CHR '')''"]
    number_chars [OF assms, of "ord CHR ''e''"] number_chars [OF assms, of "ord CHR '' ''"]
  by auto

lemma set_sub_pm: "set (sub_plus_minus symb s) \<subseteq> set s \<union> set symb \<union> {ord CHR '' ''}"
  by (induction symb s rule: sub_plus_minus.induct) auto

lemma sub_paren_None:
  "match_paren symb (c # cs) = None \<Longrightarrow> sub_paren symb (c # cs) = c # sub_paren symb cs"
  by simp

lemma sub_paren_Some:
  "match_paren symb (c # cs) = Some (A, B, r) \<Longrightarrow>
     sub_paren symb (c # cs) = A @ uni '' '' @ symb @ uni '' '' @ B @ uni '' e'' @ sub_paren symb r"
  by simp

lemma sub_paren_induct [case_names Nil None Some]:
  assumes "P []"
    and "\<And>c cs. match_paren symb (c # cs) = None \<Longrightarrow> P cs \<Longrightarrow> P (c # cs)"
    and "\<And>c cs A B r. match_paren symb (c # cs) = Some (A, B, r) \<Longrightarrow> P r \<Longrightarrow> P (c # cs)"
  shows "P s"
proof (induction s rule: length_induct)
  case (1 s)
  show ?case
  proof (cases s)
    case Nil
    then show ?thesis using assms(1) by simp
  next
    case (Cons c cs)
    show ?thesis
    proof (cases "match_paren symb (c # cs)")
      case None
      then show ?thesis using assms(2) 1 Cons by simp
    next
      case (Some m)
      obtain A B r where m: "m = (A, B, r)" by (cases m)
      have "length r < length s"
        using match_paren_length Some m Cons by blast
      then show ?thesis using assms(3) 1 Cons Some m by blast
    qed
  qed
qed

lemma set_sub_paren: "set (sub_paren symb s) \<subseteq> set s \<union> set symb \<union> {ord CHR '' '', ord CHR ''e''}"
proof (induction s rule: sub_paren_induct [where symb = symb])
  case Nil
  show ?case by simp
next
  case (None c cs)
  then show ?case by (auto simp: sub_paren_None)
next
  case (Some c cs A B r)
  have "set (c # cs) = set (ord CHR ''('' # A @ uni '' '' @ symb @ uni '' '' @ B @ uni '')e'' @ r)"
    using match_paren_Some(1) [OF Some(1)] by (rule arg_cong)
  then have "set A \<subseteq> set (c # cs)" "set B \<subseteq> set (c # cs)" "set r \<subseteq> set (c # cs)"
    by auto
  with Some(2) show ?case
    unfolding sub_paren_Some [OF Some(1)] by auto
qed

lemma sub_paren_identity: "\<not> paren_occurs symb s \<Longrightarrow> sub_paren symb s = s"
proof (induction s)
  case Nil
  show ?case by simp
next
  case (Cons a s)
  then have "sub_paren symb s = s" by simp
  moreover from Cons.prems have "match_paren symb (a # s) = None"
    by (cases "match_paren symb (a # s)") auto
  ultimately show ?case by simp
qed

lemma match_paren_head: "a \<noteq> ord CHR ''('' \<Longrightarrow> match_paren symb (a # s) = None"
  by (simp add: match_paren_def)

lemma paren_occurs_prefix:
  "ord CHR ''('' \<notin> set X \<Longrightarrow> paren_occurs symb (X @ Y) = paren_occurs symb Y"
  by (induction X) (auto simp: match_paren_head)

text \<open>The first closing parenthesis or letter e of a replacement text is an e.\<close>

lemma replacement_stop:
  assumes "symbol_ok symb" and "is_number A" and "is_number B"
    and "\<forall>c\<in>set w. c \<noteq> ord CHR '')'' \<and> c \<noteq> ord CHR ''e''"
  shows "A @ uni '' '' @ symb @ uni '' '' @ B @ uni '' e'' @ z \<noteq> w @ ord CHR '')'' # r"
proof
  let ?P = "\<lambda>c. c \<noteq> ord CHR '')'' \<and> c \<noteq> ord CHR ''e''"
  let ?X = "A @ uni '' '' @ symb @ uni '' '' @ B @ uni '' ''"
  assume eq: "A @ uni '' '' @ symb @ uni '' '' @ B @ uni '' e'' @ z = w @ ord CHR '')'' # r"
  have "\<forall>c\<in>set ?X. ?P c"
    using number_avoids(4,5) [OF assms(2)] number_avoids(4,5) [OF assms(3)]
      symbol_okD(2,3) [OF assms(1)]
    by auto
  then have "dropWhile ?P (?X @ ord CHR ''e'' # z) = ord CHR ''e'' # z"
    by (subst dropWhile_append2) auto
  moreover have "dropWhile ?P (w @ ord CHR '')'' # r) = ord CHR '')'' # r"
    using assms(4) by (subst dropWhile_append2) auto
  moreover have "?X @ ord CHR ''e'' # z = w @ ord CHR '')'' # r"
    using eq by simp
  ultimately show False by simp
qed

lemma sub_paren_keeps_closing:
  assumes "symbol_ok symb" and "\<forall>c\<in>set w. c \<noteq> ord CHR '')'' \<and> c \<noteq> ord CHR ''e''"
    and "sub_paren symb cs = w @ ord CHR '')'' # r"
  shows "\<exists>r'. cs = w @ ord CHR '')'' # r' \<and> sub_paren symb r' = r"
  using assms(2,3)
proof (induction w arbitrary: cs)
  case Nil
  then obtain c cs' where cs: "cs = c # cs'" by (cases cs) auto
  show ?case
  proof (cases "match_paren symb (c # cs')")
    case None
    with Nil cs show ?thesis by simp
  next
    case (Some m)
    obtain A B r2 where m: "m = (A, B, r2)" by (cases m)
    have "A @ uni '' '' @ symb @ uni '' '' @ B @ uni '' e'' @ sub_paren symb r2 \<noteq> [] @ ord CHR '')'' # r"
      using match_paren_Some(2,3) [of symb "c # cs'" A B r2] Some m assms(1)
      by (intro replacement_stop) auto
    with Nil cs Some m show ?thesis by simp
  qed
next
  case (Cons x w)
  then obtain c cs' where cs: "cs = c # cs'" by (cases cs) auto
  show ?case
  proof (cases "match_paren symb (c # cs')")
    case None
    with Cons.prems cs have "c = x" "sub_paren symb cs' = w @ ord CHR '')'' # r"
      by simp_all
    moreover from Cons.prems have "\<forall>c\<in>set w. c \<noteq> ord CHR '')'' \<and> c \<noteq> ord CHR ''e''" by simp
    ultimately show ?thesis
      using Cons.IH [of cs'] cs by auto
  next
    case (Some m)
    obtain A B r2 where m: "m = (A, B, r2)" by (cases m)
    have "A @ uni '' '' @ symb @ uni '' '' @ B @ uni '' e'' @ sub_paren symb r2 \<noteq> (x # w) @ ord CHR '')'' # r"
      using match_paren_Some(2,3) [of symb "c # cs'" A B r2] Some m assms(1) Cons.prems(1)
      by (intro replacement_stop) auto
    with Cons.prems cs Some m show ?thesis by simp
  qed
qed

lemma sub_paren_keeps_e:
  assumes "sub_paren symb cs = ord CHR ''e'' # r"
  shows "\<exists>r'. cs = ord CHR ''e'' # r'"
proof -
  from assms obtain c cs' where cs: "cs = c # cs'" by (cases cs) auto
  show ?thesis
  proof (cases "match_paren symb (c # cs')")
    case None
    with assms cs show ?thesis by simp
  next
    case (Some m)
    obtain A B r2 where m: "m = (A, B, r2)" by (cases m)
    have "is_number A" using match_paren_Some(2) Some m by blast
    then have "A \<noteq> []" "is_digit (hd A)"
      using number_nonempty number_hd by blast+
    then obtain a A' where "A = a # A'" "is_digit a" by (cases A) auto
    with assms cs Some m show ?thesis by auto
  qed
qed

lemma sub_paren_no_match:
  assumes ok: "symbol_ok symb"
  shows "\<not> paren_occurs symb (sub_paren symb s)"
proof (induction s rule: sub_paren_induct [where symb = symb])
  case Nil
  show ?case by simp
next
  case (Some c cs A B r)
  have num: "is_number A" "is_number B"
    using match_paren_Some(2,3) [OF Some(1)] by blast+
  have "ord CHR ''('' \<notin> set (A @ uni '' '' @ symb @ uni '' '' @ B @ uni '' e'')"
    using number_avoids(3) [OF num(1)] number_avoids(3) [OF num(2)] symbol_okD(1) [OF ok]
    by auto
  then have "paren_occurs symb ((A @ uni '' '' @ symb @ uni '' '' @ B @ uni '' e'') @ sub_paren symb r)
               = paren_occurs symb (sub_paren symb r)"
    by (rule paren_occurs_prefix)
  with Some(2) show ?case
    unfolding sub_paren_Some [OF Some(1)] by simp
next
  case (None c cs)
  have "match_paren symb (c # sub_paren symb cs) = None"
  proof (rule ccontr)
    assume "match_paren symb (c # sub_paren symb cs) \<noteq> None"
    then obtain A B r where m: "match_paren symb (c # sub_paren symb cs) = Some (A, B, r)"
      by auto
    have num: "is_number A" "is_number B"
      using match_paren_Some(2,3) [OF m] by blast+
    have eq: "c # sub_paren symb cs = ord CHR ''('' # A @ uni '' '' @ symb @ uni '' '' @ B @ uni '')e'' @ r"
      using match_paren_Some(1) [OF m] .
    let ?w = "A @ uni '' '' @ symb @ uni '' '' @ B"
    have c: "c = ord CHR ''(''" and out: "sub_paren symb cs = ?w @ ord CHR '')'' # ord CHR ''e'' # r"
      using eq by simp_all
    have "\<forall>x\<in>set ?w. x \<noteq> ord CHR '')'' \<and> x \<noteq> ord CHR ''e''"
      using number_avoids(4,5) [OF num(1)] number_avoids(4,5) [OF num(2)]
        symbol_okD(2,3) [OF ok]
      by auto
    from sub_paren_keeps_closing [OF ok this out]
    obtain r' where r': "cs = ?w @ ord CHR '')'' # r'" "sub_paren symb r' = ord CHR ''e'' # r"
      by blast
    from sub_paren_keeps_e [OF r'(2)] obtain rr where "r' = ord CHR ''e'' # rr" by blast
    with r'(1) c have "c # cs = ord CHR ''('' # A @ uni '' '' @ symb @ uni '' '' @ B @ uni '')e'' @ rr"
      by simp
    then have "match_paren symb (c # cs) = Some (A, B, rr)"
      using match_paren_intro [OF num, of symb rr] by simp
    with None(1) show False by simp
  qed
  with None(2) show ?case
    unfolding sub_paren_None [OF None(1)] by simp
qed

lemma sub_paren_idem: "symbol_ok symb \<Longrightarrow> sub_paren symb (sub_paren symb s) = sub_paren symb s"
  by (rule sub_paren_identity) (rule sub_paren_no_match)


definition render :: "ustring \<Rightarrow> nat option list \<Rightarrow> ustring" where
  "render symb sk = concat (map (\<lambda>x. case x of None \<Rightarrow> symb | Some c \<Rightarrow> [c]) sk)"

lemma render_simps [simp]:
  "render symb [] = []"
  "render symb (Some c # sk) = c # render symb sk"
  "render symb (None # sk) = symb @ render symb sk"
  by (simp_all add: render_def)


lemma pm_occurs_Cons: "pm_occurs s \<Longrightarrow> pm_occurs (a # s)"
  by (cases s rule: pm_occurs.cases) auto

lemma pm_occurs_iff:
  "pm_occurs s \<longleftrightarrow>
     (\<exists>pre d1 d2 rest. s = pre @ d1 # uni ''+/-'' @ d2 # rest \<and> is_digit d1 \<and> is_digit d2)"
proof
  show "pm_occurs s \<Longrightarrow>
      \<exists>pre d1 d2 rest. s = pre @ d1 # uni ''+/-'' @ d2 # rest \<and> is_digit d1 \<and> is_digit d2"
  proof (induction s rule: pm_occurs.induct)
    case (1 a b c d e rest)
    show ?case
    proof (cases "is_digit a \<and> b = ord CHR ''+'' \<and> c = ord CHR ''/'' \<and> d = ord CHR ''-'' \<and> is_digit e")
      case True
      then have "a # b # c # d # e # rest = [] @ a # uni ''+/-'' @ e # rest \<and> is_digit a \<and> is_digit e"
        by simp
      then show ?thesis by blast
    next
      case False
      with 1 obtain pre d1 d2 r where
        "b # c # d # e # rest = pre @ d1 # uni ''+/-'' @ d2 # r" "is_digit d1" "is_digit d2"
        by auto
      then have "a # b # c # d # e # rest = (a # pre) @ d1 # uni ''+/-'' @ d2 # r \<and>
          is_digit d1 \<and> is_digit d2"
        by simp
      then show ?thesis by blast
    qed
  qed simp_all
next
  assume "\<exists>pre d1 d2 rest. s = pre @ d1 # uni ''+/-'' @ d2 # rest \<and> is_digit d1 \<and> is_digit d2"
  then obtain pre d1 d2 rest where
    s: "s = pre @ d1 # uni ''+/-'' @ d2 # rest" and d: "is_digit d1" "is_digit d2"
    by blast
  have "pm_occurs (pre @ d1 # uni ''+/-'' @ d2 # rest)"
    using d by (induction pre) (simp_all add: pm_occurs_Cons)
  with s show "pm_occurs s" by simp
qed

lemma paren_occurs_iff:
  "paren_occurs symb s \<longleftrightarrow>
     (\<exists>pre A B rest. s = pre @ uni ''('' @ A @ uni '' '' @ symb @ uni '' '' @ B @ uni '')e'' @ rest \<and>
        is_number A \<and> is_number B)"
proof
  show "paren_occurs symb s \<Longrightarrow>
     \<exists>pre A B rest. s = pre @ uni ''('' @ A @ uni '' '' @ symb @ uni '' '' @ B @ uni '')e'' @ rest \<and>
        is_number A \<and> is_number B"
  proof (induction s)
    case Nil
    then show ?case by simp
  next
    case (Cons c cs)
    show ?case
    proof (cases "match_paren symb (c # cs)")
      case (Some m)
      obtain A B r where m: "m = (A, B, r)" by (cases m)
      from match_paren_Some [of symb "c # cs" A B r] Some m
      have "c # cs = [] @ uni ''('' @ A @ uni '' '' @ symb @ uni '' '' @ B @ uni '')e'' @ r \<and>
          is_number A \<and> is_number B"
        by simp
      then show ?thesis by blast
    next
      case None
      with Cons obtain pre A B r where
        "cs = pre @ uni ''('' @ A @ uni '' '' @ symb @ uni '' '' @ B @ uni '')e'' @ r" "is_number A" "is_number B"
        by auto
      then have "c # cs = (c # pre) @ uni ''('' @ A @ uni '' '' @ symb @ uni '' '' @ B @ uni '')e'' @ r \<and>
          is_number A \<and> is_number B"
        by simp
      then show ?thesis by blast
    qed
  qed
next
  assume "\<exists>pre A B rest. s = pre @ uni ''('' @ A @ uni '' '' @ symb @ uni '' '' @ B @ uni '')e'' @ rest \<and>
        is_number A \<and> is_number B"
  then obtain pre A B rest where
    s: "s = pre @ uni ''('' @ A @ uni '' '' @ symb @ uni '' '' @ B @ uni '')e'' @ rest"
    and n: "is_number A" "is_number B"
    by blast
  have "paren_occurs symb (pre @ ord CHR ''('' # A @ uni '' '' @ symb @ uni '' '' @ B @ uni '')e'' @ rest)"
  proof (induction pre)
    case Nil
    show ?case using match_paren_intro [OF n, of symb rest] by simp
  next
    case (Cons a pre)
    then show ?case by simp
  qed
  with s show "paren_occurs symb s" by simp
qed

lemma uarray_post_no_quote:
  assumes "symbol_ok symb"
  shows "dquote \<notin> set (uarray_post symb s)"
proof -
  have "dquote \<notin> set symb" using symbol_okD(5) [OF assms] by blast
  moreover have "dquote \<notin> set (delete_quotes s)" by (rule delete_quotes_set)
  ultimately have "dquote \<notin> set (sub_plus_minus symb (delete_quotes s))"
    using set_sub_pm [of symb "delete_quotes s"] by auto
  with \<open>dquote \<notin> set symb\<close> show ?thesis
    using set_sub_paren [of symb "sub_plus_minus symb (delete_quotes s)"]
    by (auto simp: uarray_post_def)
qed

lemma uarray_post_passthrough:
  assumes "\<not> pm_occurs (delete_quotes s)" and "\<not> paren_occurs symb (delete_quotes s)"
  shows "uarray_post symb s = delete_quotes s"
  using assms by (simp add: uarray_post_def sub_pm_identity sub_paren_identity)

lemma uarray_post_idem:
  assumes "symbol_ok symb" and "\<not> pm_occurs (uarray_post symb s)"
  shows "uarray_post symb (uarray_post symb s) = uarray_post symb s"
proof -
  let ?t = "uarray_post symb s"
  have "delete_quotes ?t = ?t"
    using uarray_post_no_quote [OF assms(1)] by (rule delete_quotes_id)
  moreover have "sub_plus_minus symb ?t = ?t"
    using assms(2) by (rule sub_pm_identity)
  moreover have "sub_paren symb ?t = ?t"
    unfolding uarray_post_def using assms(1) by (rule sub_paren_idem)
  ultimately show ?thesis
    by (simp add: uarray_post_def [of symb ?t])
qed

subsection \<open>Occurrences in the pipeline\<close>









subsection \<open>Claims about the formatter\<close>

lemmas post_defs = write_table_tex_def write_table_plain_def uarray_post_def delete_quotes_def
  pm_tex_def pm_plain_def

lemmas eval_defs = post_defs match_paren_def take_number_def strip_prefix_def is_digit_def
  decimal_ranges_def

text \<open>
  C4: every cell of the shape \<open>(A SYM B)e...\<close>, where \<open>A\<close> may carry a leading sign, loses
  its parentheses.  The code fails this at the serialized negative measurement
  \<open>(-1.23+/-0.04)e+02\<close>: the pattern wants a digit right behind the opening parenthesis,
  nothing matches, and the parentheses stay, in both files, while the unsigned cell
  beside it is rewritten.
\<close>

theorem write_table_keeps_signed_parentheses:
  "write_table_tex (uni ''(-1.23+/-0.04)e+02'') = uni ''(-1.23 '' @ pm_tex @ uni '' 0.04)e+02'' \<and>
   write_table_tex (uni ''(-1.23+/-0.04)e+02'') \<noteq> uni ''-1.23 '' @ pm_tex @ uni '' 0.04 e+02'' \<and>
   write_table_plain (uni ''(-1.23+/-0.04)e+02'') = uni ''(-1.23 +- 0.04)e+02'' \<and>
   write_table_tex (uni ''(1.23+/-0.04)e+02&(-1.23+/-0.04)e+02'') =
     uni ''1.23 '' @ pm_tex @ uni '' 0.04 e+02&(-1.23 '' @ pm_tex @ uni '' 0.04)e+02''"
  by (simp add: eval_defs)




text \<open>
  C6, as stated: an input without an occurrence of either pattern is returned unchanged.
  The quoted cell \<open>"42"\<close> has no such occurrence and loses its quotes.
\<close>

theorem passthrough_quotes_counterexample:
  "\<not> pm_occurs (dquote # uni ''42'' @ [dquote]) \<and>
   \<not> paren_occurs pm_tex (dquote # uni ''42'' @ [dquote]) \<and>
   write_table_tex (dquote # uni ''42'' @ [dquote]) = uni ''42'' \<and>
   write_table_tex (dquote # uni ''42'' @ [dquote]) \<noteq> dquote # uni ''42'' @ [dquote] \<and>
   write_table_plain (dquote # uni ''42'' @ [dquote]) = uni ''42''"
  by (simp add: eval_defs)

text \<open>
  C6, amended: when the input with its double quotes deleted contains no occurrence of a
  digit, \<open>+/-\<close> and a digit and no match of the parenthesized pattern, the result is the
  input with its double quotes deleted and nothing else changed; an input without
  double quotes is returned as it is.  The functions are total: nothing is raised.
  Characters \<open>+\<close> and \<open>-\<close> outside the pattern stay.
\<close>

theorem passthrough_unmatched:
  "(\<not> pm_occurs (delete_quotes s) \<and> \<not> paren_occurs pm_tex (delete_quotes s) \<longrightarrow>
      write_table_tex s = delete_quotes s) \<and>
   (\<not> pm_occurs (delete_quotes s) \<and> \<not> paren_occurs pm_plain (delete_quotes s) \<longrightarrow>
      write_table_plain s = delete_quotes s) \<and>
   (dquote \<notin> set s \<longrightarrow> delete_quotes s = s)"
  using uarray_post_passthrough [of s pm_tex] uarray_post_passthrough [of s pm_plain]
    delete_quotes_id [of s]
  by (simp add: write_table_tex_def write_table_plain_def)

theorem passthrough_unmatched_witness:
  "\<not> pm_occurs (delete_quotes (uni ''-1e+05'')) \<and> \<not> paren_occurs pm_tex (delete_quotes (uni ''-1e+05'')) \<and>
   \<not> paren_occurs pm_plain (delete_quotes (uni ''-1e+05'')) \<and> dquote \<notin> set (uni ''-1e+05'') \<and>
   write_table_tex (uni ''-1e+05'') = uni ''-1e+05'' \<and> write_table_plain (uni ''-1e+05'') = uni ''-1e+05''"
proof -
  have h: "\<not> pm_occurs (delete_quotes (uni ''-1e+05''))"
    "\<not> paren_occurs pm_tex (delete_quotes (uni ''-1e+05''))"
    "\<not> paren_occurs pm_plain (delete_quotes (uni ''-1e+05''))"
    "dquote \<notin> set (uni ''-1e+05'')"
    by (simp_all add: eval_defs)
  with passthrough_unmatched [of "uni ''-1e+05''"] show ?thesis by simp
qed

text \<open>
  C7, as stated: the post-processing applied to its own output changes nothing, for every
  input.  On \<open>7+/-8+/-9\<close> the first pass leaves \<open>8+/-9\<close>, which the second pass replaces.
\<close>

theorem idempotence_counterexample:
  "write_table_tex (uni ''7+/-8+/-9'') = uni ''7 '' @ pm_tex @ uni '' 8+/-9'' \<and>
   write_table_tex (write_table_tex (uni ''7+/-8+/-9'')) = uni ''7 '' @ pm_tex @ uni '' 8 '' @ pm_tex @ uni '' 9'' \<and>
   write_table_tex (write_table_tex (uni ''7+/-8+/-9'')) \<noteq> write_table_tex (uni ''7+/-8+/-9'') \<and>
   write_table_plain (write_table_plain (uni ''7+/-8+/-9'')) \<noteq> write_table_plain (uni ''7+/-8+/-9'')"
  by (simp add: eval_defs)

text \<open>
  C7, amended: whenever the output contains no remaining occurrence of a digit, \<open>+/-\<close>
  and a digit, the post-processing applied to that output changes nothing.
\<close>

theorem post_idempotent:
  "(\<not> pm_occurs (write_table_tex s) \<longrightarrow>
      write_table_tex (write_table_tex s) = write_table_tex s) \<and>
   (\<not> pm_occurs (write_table_plain s) \<longrightarrow>
      write_table_plain (write_table_plain s) = write_table_plain s)"
  using uarray_post_idem [OF symbol_ok_pm(1), of s] uarray_post_idem [OF symbol_ok_pm(2), of s]
  by (simp add: write_table_tex_def write_table_plain_def)

theorem post_idempotent_witness:
  "\<not> pm_occurs (write_table_tex (dquote # uni ''(1.23+/-0.04)e+02'' @ [dquote])) \<and>
   \<not> pm_occurs (write_table_plain (dquote # uni ''(1.23+/-0.04)e+02'' @ [dquote])) \<and>
   write_table_tex (dquote # uni ''(1.23+/-0.04)e+02'' @ [dquote]) = uni ''1.23 '' @ pm_tex @ uni '' 0.04 e+02'' \<and>
   write_table_tex (uni ''1.23 '' @ pm_tex @ uni '' 0.04 e+02'') = uni ''1.23 '' @ pm_tex @ uni '' 0.04 e+02'' \<and>
   write_table_plain (uni ''1.23 +- 0.04 e+02'') = uni ''1.23 +- 0.04 e+02''"
proof -
  have a: "write_table_tex (dquote # uni ''(1.23+/-0.04)e+02'' @ [dquote]) =
      uni ''1.23 '' @ pm_tex @ uni '' 0.04 e+02''"
    and b: "write_table_plain (dquote # uni ''(1.23+/-0.04)e+02'' @ [dquote]) =
      uni ''1.23 +- 0.04 e+02''"
    by (simp_all add: eval_defs)
  have h: "\<not> pm_occurs (write_table_tex (dquote # uni ''(1.23+/-0.04)e+02'' @ [dquote]))"
    "\<not> pm_occurs (write_table_plain (dquote # uni ''(1.23+/-0.04)e+02'' @ [dquote]))"
    unfolding a b by (simp_all add: eval_defs)
  from post_idempotent [of "dquote # uni ''(1.23+/-0.04)e+02'' @ [dquote]"] h
  have "write_table_tex (write_table_tex (dquote # uni ''(1.23+/-0.04)e+02'' @ [dquote])) =
      write_table_tex (dquote # uni ''(1.23+/-0.04)e+02'' @ [dquote])"
    and "write_table_plain (write_table_plain (dquote # uni ''(1.23+/-0.04)e+02'' @ [dquote])) =
      write_table_plain (dquote # uni ''(1.23+/-0.04)e+02'' @ [dquote])"
    by simp_all
  then show ?thesis using h unfolding a b by simp
qed

section \<open>The Student-t helper (\<open>classes.py\<close>, class \<open>Student\<close>)\<close>

text \<open>
  \<open>str\<close> of a Python \<open>int\<close>: the decimal digits, with a minus sign for a negative number.
\<close>

fun str_nat :: "nat \<Rightarrow> string" where
  "str_nat n =
     (if n < 10 then [''0123456789'' ! n]
      else str_nat (n div 10) @ [''0123456789'' ! (n mod 10)])"

definition str_int :: "int \<Rightarrow> string" where
  "str_int i = (if i < 0 then CHR ''-'' # str_nat (nat (- i)) else str_nat (nat i))"

text \<open>
  The class attribute \<open>t_df\<close> (lines 235 to 247): a \<open>DataFrame\<close> with the columns \<open>"1"\<close>,
  \<open>"2"\<close>, \<open>"3"\<close> and the index \<open>list(range(2, 51))\<close>.  \<open>t_df.loc[row, col]\<close> raises
  \<open>KeyError\<close> when the column or the row label is missing.
\<close>

definition t_df_index :: "nat list" where
  "t_df_index = [2..<51]"

definition t_df :: "(string \<times> real list) list" where
  "t_df =
    [(''1'', [1.84, 1.32, 1.2, 1.15, 1.11, 1.09, 1.08, 1.07, 1.06, 1.051, 1.045, 1.04, 1.036,
             1.033, 1.032, 1.031, 1.03, 1.03, 1.03, 1.03, 1.029, 1.028, 1.027, 1.026, 1.025,
             1.024, 1.022, 1.021, 1.02, 1.019, 1.018, 1.017, 1.016, 1.016, 1.015, 1.014, 1.014,
             1.013, 1.013, 1.012, 1.012, 1.012, 1.011, 1.011, 1.011, 1.011, 1.01, 1.01, 1.01]),
     (''2'', [13.97, 4.53, 3.31, 2.87, 2.65, 2.53, 2.43, 2.364, 2.32, 2.285, 2.255, 2.23, 2.209,
             2.191, 2.177, 2.165, 2.155, 2.147, 2.14, 2.133, 2.127, 2.121, 2.116, 2.111, 2.106,
             2.102, 2.097, 2.094, 2.09, 2.087, 2.083, 2.08, 2.078, 2.075, 2.072, 2.07, 2.068,
             2.066, 2.064, 2.062, 2.06, 2.059, 2.057, 2.056, 2.055, 2.053, 2.052, 2.051, 2.05]),
     (''3'', [235.8, 19.21, 9.22, 6.62, 5.51, 5.02, 4.53, 4.31, 4.09, 4.026, 3.962, 3.898, 3.834,
             3.77, 3.706, 3.642, 3.578, 3.514, 3.45, 3.433, 3.416, 3.399, 3.382, 3.365, 3.348,
             3.331, 3.314, 3.297, 3.28, 3.274, 3.268, 3.262, 3.256, 3.25, 3.244, 3.238, 3.232,
             3.226, 3.22, 3.214, 3.208, 3.202, 3.196, 3.19, 3.184, 3.178, 3.172, 3.166, 3.16])]"

definition t_df_loc :: "nat \<Rightarrow> string \<Rightarrow> error + real" where
  "t_df_loc row col =
     (case map_of t_df col of
        None \<Rightarrow> Inl (KeyError col)
      | Some column \<Rightarrow>
          (case map_of (zip t_df_index column) row of
             None \<Rightarrow> Inl (KeyError (str_nat row))
           | Some v \<Rightarrow> Inr v))"

text \<open>
  The argument \<open>sigma\<close> is annotated \<open>int\<close>, but nothing checks the annotation: the
  constructor observes the object through \<open>sigma not in [1, 2, 3]\<close>, which compares with
  \<open>==\<close>, and through \<open>str(sigma)\<close>.  A Python object is modelled by these two
  observations: \<open>py_eq x k\<close> is the truth value of \<open>x == k\<close> for an \<open>int\<close> \<open>k\<close>, and
  \<open>py_str x\<close> is \<open>str(x)\<close>.  The objects used below are the \<open>int\<close> \<open>n\<close>, the \<open>bool\<close> \<open>b\<close>
  (\<open>True == 1\<close>, \<open>False == 0\<close>, \<open>str(True)\<close> is \<open>True\<close>) and the \<open>float\<close> of integral value
  \<open>n\<close> below \<open>10 ^ 16\<close> (\<open>1.0 == 1\<close>, \<open>str(1.0)\<close> is \<open>1.0\<close>).
\<close>

record pyobject =
  py_eq :: "int \<Rightarrow> bool"
  py_str :: string

definition py_int :: "int \<Rightarrow> pyobject" where
  "py_int n = \<lparr> py_eq = (\<lambda>k. n = k), py_str = str_int n \<rparr>"

definition py_bool :: "bool \<Rightarrow> pyobject" where
  "py_bool b = \<lparr> py_eq = (\<lambda>k. (if b then 1 else 0) = k),
                py_str = (if b then ''True'' else ''False'') \<rparr>"

definition py_float :: "int \<Rightarrow> pyobject" where
  "py_float n = \<lparr> py_eq = (\<lambda>k. n = k), py_str = str_int n @ ''.0'' \<rparr>"

text \<open>
  \<open>x in xs\<close> for a list of \<open>int\<close>s.
\<close>

definition py_in :: "pyobject \<Rightarrow> int list \<Rightarrow> bool" where
  "py_in x ks = list_ex (py_eq x) ks"

text \<open>
  \<open>numpy.mean\<close> and \<open>scipy.stats.sem\<close> (standard error of the mean, one delta degree of
  freedom), over the reals.  \<open>ufloat(n, s)\<close> is the pair of nominal value and standard
  deviation.
\<close>

definition np_mean :: "real list \<Rightarrow> real" where
  "np_mean xs = sum_list xs / real (length xs)"

definition sem :: "real list \<Rightarrow> real" where
  "sem xs =
     sqrt (sum_list (map (\<lambda>x. (x - np_mean xs)\<^sup>2) xs) / (real (length xs) - 1))
       / sqrt (real (length xs))"

record Student =
  Student_t :: real
  Student_series :: "real list"
  Student_n :: real
  Student_s :: real
  Student_mean :: "real \<times> real"
  Student_factor_used :: bool

text \<open>
  \<open>Student.__init__\<close>, lines 265 to 289.  The series is a sequence of numbers, of which
  the constructor first takes the length.
\<close>

definition Student_init :: "real list \<Rightarrow> pyobject \<Rightarrow> error + Student" where
  "Student_init series_in sigma =
     (if \<not> py_in sigma [1, 2, 3]
      then Inl (ValueError ''Sigma must be amongst the following integers: [1, 2, 3]'')
      else
        (case t_df_loc (length series_in) (py_str sigma) of
           Inl (KeyError _) \<Rightarrow> Inl (IndexError ''Series is too big, maximum length is 50'')
         | Inl e \<Rightarrow> Inl e
         | Inr tv \<Rightarrow>
             Inr \<lparr> Student_t = tv, Student_series = series_in,
                   Student_n = np_mean series_in, Student_s = sem series_in,
                   Student_mean = (np_mean series_in, tv * sem series_in),
                   Student_factor_used = (tv * sem series_in \<noteq> sem series_in) \<rparr>))"

subsection \<open>Claim about the constructor\<close>

lemma t_df_columns:
  "\<exists>column. map_of t_df ''1'' = Some column \<and> length column = 49"
  "\<exists>column. map_of t_df ''2'' = Some column \<and> length column = 49"
  "\<exists>column. map_of t_df ''3'' = Some column \<and> length column = 49"
  "col \<notin> {''1'', ''2'', ''3''} \<Longrightarrow> map_of t_df col = None"
  unfolding t_df_def by simp_all

lemma t_df_loc_column:
  assumes "col \<in> {''1'', ''2'', ''3''}"
  shows "(\<exists>v. t_df_loc row col = Inr v) \<longleftrightarrow> 2 \<le> row \<and> row \<le> 50"
    and "\<not> (2 \<le> row \<and> row \<le> 50) \<Longrightarrow> \<exists>k. t_df_loc row col = Inl (KeyError k)"
proof -
  obtain column where c: "map_of t_df col = Some column" "length column = 49"
    using t_df_columns(1,2,3) assms by auto
  have len: "length t_df_index = length column"
    by (simp add: t_df_index_def c(2))
  have dom: "(map_of (zip t_df_index column) row = None) \<longleftrightarrow> row \<notin> set t_df_index"
    using len by (simp add: map_of_zip_is_None)
  have mem: "row \<in> set t_df_index \<longleftrightarrow> 2 \<le> row \<and> row \<le> 50"
    unfolding t_df_index_def set_upt atLeastLessThan_iff by arith
  show "(\<exists>v. t_df_loc row col = Inr v) \<longleftrightarrow> 2 \<le> row \<and> row \<le> 50"
    using dom mem by (auto simp: t_df_loc_def c(1) split: option.splits)
  show "\<not> (2 \<le> row \<and> row \<le> 50) \<Longrightarrow> \<exists>k. t_df_loc row col = Inl (KeyError k)"
    using dom mem by (auto simp: t_df_loc_def c(1) split: option.splits)
qed

lemma t_df_loc_no_column:
  "col \<notin> {''1'', ''2'', ''3''} \<Longrightarrow> t_df_loc row col = Inl (KeyError col)"
  by (simp add: t_df_loc_def t_df_columns(4))

lemma py_in_123: "py_in sigma [1, 2, 3] \<longleftrightarrow> py_eq sigma 1 \<or> py_eq sigma 2 \<or> py_eq sigma 3"
  by (simp add: py_in_def)

lemma Student_init_sigma:
  "\<not> py_in sigma [1, 2, 3] \<Longrightarrow>
     Student_init series_in sigma =
       Inl (ValueError ''Sigma must be amongst the following integers: [1, 2, 3]'')"
  by (simp add: Student_init_def)

lemma Student_init_key:
  assumes "py_in sigma [1, 2, 3]"
    and "\<not> (py_str sigma \<in> {''1'', ''2'', ''3''} \<and> 2 \<le> length series_in \<and> length series_in \<le> 50)"
  shows "Student_init series_in sigma =
           Inl (IndexError ''Series is too big, maximum length is 50'')"
proof -
  have "\<exists>k. t_df_loc (length series_in) (py_str sigma) = Inl (KeyError k)"
  proof (cases "py_str sigma \<in> {''1'', ''2'', ''3''}")
    case True
    with assms(2) have "\<not> (2 \<le> length series_in \<and> length series_in \<le> 50)" by blast
    then show ?thesis by (rule t_df_loc_column(2) [OF True])
  next
    case False
    then show ?thesis using t_df_loc_no_column by blast
  qed
  then obtain k where "t_df_loc (length series_in) (py_str sigma) = Inl (KeyError k)" ..
  with assms(1) show ?thesis
    by (simp add: Student_init_def)
qed

lemma Student_init_ok:
  assumes "py_in sigma [1, 2, 3]" and "py_str sigma \<in> {''1'', ''2'', ''3''}"
    and "2 \<le> length series_in \<and> length series_in \<le> 50"
  shows "\<exists>st. Student_init series_in sigma = Inr st"
proof -
  obtain v where "t_df_loc (length series_in) (py_str sigma) = Inr v"
    using t_df_loc_column(1) [OF assms(2)] assms(3) by blast
  with assms(1) show ?thesis
    by (simp add: Student_init_def)
qed

lemma py_int_123:
  "py_in (py_int n) [1, 2, 3] \<longleftrightarrow> n \<in> {1, 2, 3}"
  "n \<in> {1, 2, 3} \<Longrightarrow> py_str (py_int n) \<in> {''1'', ''2'', ''3''}"
  by (auto simp add: py_in_def py_int_def str_int_def)

text \<open>
  C9, as stated: the construction succeeds exactly when \<open>sigma\<close> is in \<open>{1, 2, 3}\<close> and the
  series has between 2 and 50 elements.  \<open>True\<close> and \<open>1.0\<close> are in \<open>[1, 2, 3]\<close> for Python,
  and with them a series of two elements raises \<open>IndexError\<close>: \<open>str(sigma)\<close> is no column of
  \<open>t_df\<close>.
\<close>

theorem Student_init_bool_counterexample:
  "py_in (py_bool True) [1, 2, 3] \<and> length [1, 2 :: real] = 2 \<and>
   Student_init [1, 2] (py_bool True) =
     Inl (IndexError ''Series is too big, maximum length is 50'') \<and>
   py_in (py_float 1) [1, 2, 3] \<and>
   Student_init [1, 2] (py_float 1) =
     Inl (IndexError ''Series is too big, maximum length is 50'')"
proof -
  have a: "py_in (py_bool True) [1, 2, 3]" "py_in (py_float 1) [1, 2, 3]"
    by (simp_all add: py_in_def py_bool_def py_float_def)
  have b: "py_str (py_bool True) \<notin> {''1'', ''2'', ''3''}" "py_str (py_float 1) \<notin> {''1'', ''2'', ''3''}"
    by (simp_all add: py_bool_def py_float_def str_int_def)
  from a b show ?thesis
    by (simp add: Student_init_key)
qed

text \<open>
  C9, amended.  The construction succeeds exactly when \<open>sigma\<close> equals 1, 2 or 3,
  \<open>str(sigma)\<close> is one of the column labels \<open>1\<close>, \<open>2\<close>, \<open>3\<close>, and the series has between 2
  and 50 elements.  A \<open>sigma\<close> that equals none of 1, 2, 3 raises \<open>ValueError\<close> (the check
  comes first).  A \<open>sigma\<close> that passes the check raises \<open>IndexError\<close> with the message
  "Series is too big, maximum length is 50" for every length outside 2..50, the lengths
  0 and 1 included, and for every length when \<open>str(sigma)\<close> is no column label.  For an
  \<open>int\<close> \<open>n\<close> this is: success exactly when \<open>n\<close> is 1, 2 or 3 and the length is in 2..50,
  \<open>ValueError\<close> for any other \<open>n\<close>, \<open>IndexError\<close> for \<open>n\<close> in 1..3 and a length outside 2..50.
\<close>

theorem Student_init_succeeds_iff:
  "((\<exists>st. Student_init series_in sigma = Inr st) \<longleftrightarrow>
      py_in sigma [1, 2, 3] \<and> py_str sigma \<in> {''1'', ''2'', ''3''} \<and>
      2 \<le> length series_in \<and> length series_in \<le> 50) \<and>
   (\<not> py_in sigma [1, 2, 3] \<longrightarrow>
      Student_init series_in sigma =
        Inl (ValueError ''Sigma must be amongst the following integers: [1, 2, 3]'')) \<and>
   (py_in sigma [1, 2, 3] \<and>
    \<not> (py_str sigma \<in> {''1'', ''2'', ''3''} \<and> 2 \<le> length series_in \<and> length series_in \<le> 50) \<longrightarrow>
      Student_init series_in sigma =
        Inl (IndexError ''Series is too big, maximum length is 50'')) \<and>
   ((\<exists>st. Student_init series_in (py_int n) = Inr st) \<longleftrightarrow>
      n \<in> {1, 2, 3} \<and> 2 \<le> length series_in \<and> length series_in \<le> 50) \<and>
   (n \<notin> {1, 2, 3} \<longrightarrow>
      Student_init series_in (py_int n) =
        Inl (ValueError ''Sigma must be amongst the following integers: [1, 2, 3]'')) \<and>
   (n \<in> {1, 2, 3} \<and> \<not> (2 \<le> length series_in \<and> length series_in \<le> 50) \<longrightarrow>
      Student_init series_in (py_int n) =
        Inl (IndexError ''Series is too big, maximum length is 50''))"
proof -
  have general: "((\<exists>st. Student_init s x = Inr st) \<longleftrightarrow>
      py_in x [1, 2, 3] \<and> py_str x \<in> {''1'', ''2'', ''3''} \<and> 2 \<le> length s \<and> length s \<le> 50)"
    for s x
  proof (cases "py_in x [1, 2, 3]")
    case False
    from Student_init_sigma [OF this, of s] False show ?thesis by simp
  next
    case True
    show ?thesis
    proof (cases "py_str x \<in> {''1'', ''2'', ''3''} \<and> 2 \<le> length s \<and> length s \<le> 50")
      case False
      from Student_init_key [OF True this] False show ?thesis by simp
    next
      case ok: True
      then have "\<exists>st. Student_init s x = Inr st"
        using Student_init_ok [OF True] by blast
      with True ok show ?thesis by blast
    qed
  qed
  have 1: "\<not> py_in sigma [1, 2, 3] \<longrightarrow>
      Student_init series_in sigma =
        Inl (ValueError ''Sigma must be amongst the following integers: [1, 2, 3]'')"
    using Student_init_sigma by blast
  have 2: "py_in sigma [1, 2, 3] \<and>
    \<not> (py_str sigma \<in> {''1'', ''2'', ''3''} \<and> 2 \<le> length series_in \<and> length series_in \<le> 50) \<longrightarrow>
      Student_init series_in sigma =
        Inl (IndexError ''Series is too big, maximum length is 50'')"
    using Student_init_key by blast
  have 3: "(\<exists>st. Student_init series_in (py_int n) = Inr st) \<longleftrightarrow>
      n \<in> {1, 2, 3} \<and> 2 \<le> length series_in \<and> length series_in \<le> 50"
    unfolding general [of series_in "py_int n"] using py_int_123 [of n] by blast
  have 4: "n \<notin> {1, 2, 3} \<longrightarrow>
      Student_init series_in (py_int n) =
        Inl (ValueError ''Sigma must be amongst the following integers: [1, 2, 3]'')"
    using Student_init_sigma [of "py_int n" series_in] py_int_123(1) [of n] by blast
  have 5: "n \<in> {1, 2, 3} \<and> \<not> (2 \<le> length series_in \<and> length series_in \<le> 50) \<longrightarrow>
      Student_init series_in (py_int n) =
        Inl (IndexError ''Series is too big, maximum length is 50'')"
    using Student_init_key [of "py_int n" series_in] py_int_123 [of n] by blast
  from general [of series_in sigma] 1 2 3 4 5 show ?thesis
    by (intro conjI)
qed

theorem Student_init_succeeds_iff_witness:
  "(\<exists>st. Student_init [1, 2] (py_int 1) = Inr st) \<and>
   Student_init [1, 2] (py_int 4) =
     Inl (ValueError ''Sigma must be amongst the following integers: [1, 2, 3]'') \<and>
   Student_init [] (py_int 1) = Inl (IndexError ''Series is too big, maximum length is 50'') \<and>
   Student_init [7] (py_int 3) = Inl (IndexError ''Series is too big, maximum length is 50'') \<and>
   Student_init [1, 2] (py_float 2) = Inl (IndexError ''Series is too big, maximum length is 50'') \<and>
   Student_init [1, 2] (py_bool False) =
     Inl (ValueError ''Sigma must be amongst the following integers: [1, 2, 3]'')"
proof -
  have f: "py_in (py_float 2) [1, 2, 3]" "py_str (py_float 2) \<notin> {''1'', ''2'', ''3''}"
    "\<not> py_in (py_bool False) [1, 2, 3]"
    by (simp_all add: py_in_def py_float_def py_bool_def str_int_def)
  show ?thesis
    using Student_init_succeeds_iff [of "[1, 2]" "py_float 2" 1]
      Student_init_succeeds_iff [of "[1, 2]" "py_bool False" 4]
      Student_init_succeeds_iff [of "[]" "py_float 2" 1]
      Student_init_succeeds_iff [of "[7]" "py_float 2" 3] f
    by simp
qed

section \<open>The directory context manager (\<open>classes.py\<close>, class \<open>CDContxt\<close>)\<close>

text \<open>
  The part of the process and of the file system that \<open>os.getcwd\<close> and \<open>os.chdir\<close> touch.
  \<open>cwd\<close> is the working directory, an absolute path.  \<open>resolve c p\<close> is what \<open>os.chdir(p)\<close>
  finds in a process whose working directory is \<open>c\<close>: the error it raises
  (\<open>FileNotFoundError\<close> for a missing directory, \<open>NotADirectoryError\<close> for a file,
  \<open>PermissionError\<close> for a directory that may not be entered), or the absolute path of the
  directory that becomes the working directory.  \<open>getcwd_error\<close> is the error of
  \<open>os.getcwd\<close>, if it raises one (the working directory was removed, say).
\<close>

record world =
  cwd :: string
  resolve :: "string \<Rightarrow> string \<Rightarrow> error + string"
  getcwd_error :: "error option"

definition getcwd :: "world \<Rightarrow> error + string" where
  "getcwd w = (case getcwd_error w of Some e \<Rightarrow> Inl e | None \<Rightarrow> Inr (cwd w))"

definition chdir :: "string \<Rightarrow> world \<Rightarrow> error + world" where
  "chdir p w = (case resolve w (cwd w) p of Inl e \<Rightarrow> Inl e | Inr d \<Rightarrow> Inr (w\<lparr>cwd := d\<rparr>))"

text \<open>
  \<open>functions.cd\<close>: \<open>os.chdir(os.path.dirname(os.path.abspath(__file__)))\<close>; the directory
  of the module file is the parameter \<open>file_dir\<close>.
\<close>

definition cd :: "string \<Rightarrow> world \<Rightarrow> error + world" where
  "cd file_dir w = chdir file_dir w"

text \<open>
  The manager object.  \<open>olddir\<close> is an attribute that \<open>__enter__\<close> sets, hence an option.
  \<open>__enter__\<close> assigns \<open>olddir\<close> before it changes the directory, so the assignment stays
  when \<open>chdir\<close> raises; both methods return the object and the world as they leave them,
  with the error if one was raised.
\<close>

record CDContxt =
  path :: string
  olddir :: "string option"

definition CDContxt_init :: "string \<Rightarrow> CDContxt" where
  "CDContxt_init p = \<lparr> path = p, olddir = None \<rparr>"

definition CDContxt_enter ::
  "string \<Rightarrow> CDContxt \<Rightarrow> world \<Rightarrow> error option \<times> CDContxt \<times> world" where
  "CDContxt_enter file_dir self w =
     (case getcwd w of
        Inl e \<Rightarrow> (Some e, self, w)
      | Inr d \<Rightarrow>
          (let self' = self\<lparr>olddir := Some d\<rparr>
           in case (if path self' \<noteq> [] then chdir (path self') w else cd file_dir w) of
                Inl e \<Rightarrow> (Some e, self', w)
              | Inr w' \<Rightarrow> (None, self', w')))"

definition CDContxt_exit :: "CDContxt \<Rightarrow> world \<Rightarrow> error option \<times> world" where
  "CDContxt_exit self w =
     (case olddir self of
        None \<Rightarrow> (Some (AttributeError ''olddir''), w)
      | Some d \<Rightarrow> (case chdir d w of Inl e \<Rightarrow> (Some e, w) | Inr w' \<Rightarrow> (None, w')))"

text \<open>
  The statement \<open>with m: body\<close> for a manager object \<open>m\<close>.  If \<open>__enter__\<close> raises, the
  body does not run and \<open>__exit__\<close> is not called.  Otherwise \<open>__exit__\<close> runs after the
  body whether the body returned or raised; it returns \<open>None\<close>, so an exception of the
  body propagates, and an exception of \<open>__exit__\<close> itself replaces it.  The body is any
  function on the manager object and the world that ends normally or with an exception:
  the object is an ordinary Python object, which the body can reach, change and enter
  again.
\<close>

datatype outcome = Normal | Raised error

type_synonym body = "CDContxt \<times> world \<Rightarrow> outcome \<times> CDContxt \<times> world"

definition with_CDContxt :: "string \<Rightarrow> CDContxt \<Rightarrow> body \<Rightarrow> world \<Rightarrow> outcome \<times> CDContxt \<times> world" where
  "with_CDContxt file_dir m body w =
     (case CDContxt_enter file_dir m w of
        (Some e, m1, w1) \<Rightarrow> (Raised e, m1, w1)
      | (None, m1, w1) \<Rightarrow>
          (case body (m1, w1) of
             (out, m2, w2) \<Rightarrow>
               (case CDContxt_exit m2 w2 of
                  (Some e, w3) \<Rightarrow> (Raised e, m2, w3)
                | (None, w3) \<Rightarrow> (out, m2, w3))))"

text \<open>
  Bodies and a world for concrete runs: the empty body; a body that enters the same
  manager object again around an inner body; a body that takes away the permission to
  enter a directory; a body that changes the directory and then raises; a body that
  deletes the attribute \<open>olddir\<close>, and one that assigns it.  In \<open>world0\<close> the paths
  \<open>/home\<close>, \<open>/tmp\<close> and \<open>/lib\<close> name directories that can be entered.
\<close>

definition body_pass :: body where
  "body_pass = (\<lambda>(m, w). (Normal, m, w))"

definition body_with_again :: "string \<Rightarrow> body \<Rightarrow> body" where
  "body_with_again file_dir inner = (\<lambda>(m, w). with_CDContxt file_dir m inner w)"

definition body_chmod :: "string \<Rightarrow> body" where
  "body_chmod d = (\<lambda>(m, w).
     (Normal, m, w\<lparr>resolve := (\<lambda>c p. if p = d then Inl (PermissionError d) else resolve w c p)\<rparr>))"

definition body_chdir_raise :: "string \<Rightarrow> error \<Rightarrow> body" where
  "body_chdir_raise d e = (\<lambda>(m, w). (Raised e, m, w\<lparr>cwd := d\<rparr>))"

definition body_forget :: body where
  "body_forget = (\<lambda>(m, w). (Normal, m\<lparr>olddir := None\<rparr>, w))"

definition body_set_olddir :: "string \<Rightarrow> body" where
  "body_set_olddir d = (\<lambda>(m, w). (Normal, m\<lparr>olddir := Some d\<rparr>, w))"

definition world0 :: world where
  "world0 = \<lparr> cwd = ''/home'',
     resolve = (\<lambda>c p. if p \<in> {''/home'', ''/tmp'', ''/lib''} then Inr p else Inl (FileNotFoundError p)),
     getcwd_error = None \<rparr>"

subsection \<open>Claim about the working directory\<close>

lemmas CDContxt_defs = with_CDContxt_def CDContxt_enter_def CDContxt_exit_def CDContxt_init_def
  getcwd_def chdir_def cd_def Let_def

text \<open>
  C10, as stated: after the with-block the working directory is the one observed before
  entering it, for every use.  First run: one manager object for \<open>/tmp\<close> is entered, and
  entered again inside its own block; the inner \<open>__enter__\<close> overwrites \<open>olddir\<close>, every
  \<open>chdir\<close> succeeds, and the statement started in \<open>/home\<close> ends in \<open>/tmp\<close>.  Second run:
  the body takes away the permission to enter \<open>/home\<close>; \<open>__exit__\<close> raises
  \<open>PermissionError\<close> and the working directory stays \<open>/tmp\<close>.
\<close>

theorem CDContxt_reentry_counterexample:
  "cwd world0 = ''/home'' \<and>
   with_CDContxt ''/lib'' (CDContxt_init ''/tmp'') (body_with_again ''/lib'' body_pass) world0 =
     (Normal, \<lparr> path = ''/tmp'', olddir = Some ''/tmp'' \<rparr>, world0\<lparr>cwd := ''/tmp''\<rparr>) \<and>
   fst (with_CDContxt ''/lib'' (CDContxt_init ''/tmp'') (body_chmod ''/home'') world0) =
     Raised (PermissionError ''/home'') \<and>
   cwd (snd (snd (with_CDContxt ''/lib'' (CDContxt_init ''/tmp'') (body_chmod ''/home'') world0))) =
     ''/tmp''"
  by (simp add: CDContxt_defs body_with_again_def body_pass_def body_chmod_def world0_def)

text \<open>
  C10, amended.  Whichever path (or none) is given and however the body ends:
  if \<open>__enter__\<close> raises, the body does not run and the working directory is unchanged.
  Otherwise \<open>__enter__\<close> has stored the directory observed before entering, and
  \<open>__exit__\<close> calls \<open>chdir\<close> on the \<open>olddir\<close> that the object holds when the body ends.
  If that call succeeds, the statement ends with the outcome of the body in the
  directory the call leads to; this is the directory observed before entering whenever
  the body left \<open>olddir\<close> as \<open>__enter__\<close> set it and the path still leads to that
  directory.  If the call raises, or \<open>olddir\<close> is gone, the error replaces the outcome of
  the body and the working directory stays where the body left it.
\<close>

theorem CDContxt_restores_cwd:
  "(CDContxt_enter file_dir m w = (Some e, m1, w1) \<longrightarrow>
      with_CDContxt file_dir m body w = (Raised e, m1, w1) \<and> w1 = w) \<and>
   (CDContxt_enter file_dir m w = (None, m1, w1) \<and> body (m1, w1) = (out, m2, w2) \<longrightarrow>
      olddir m1 = Some (cwd w) \<and>
      (olddir m2 = Some d \<and> resolve w2 (cwd w2) d = Inr d' \<longrightarrow>
         with_CDContxt file_dir m body w = (out, m2, w2\<lparr>cwd := d'\<rparr>)) \<and>
      (olddir m2 = Some d \<and> resolve w2 (cwd w2) d = Inl e' \<longrightarrow>
         with_CDContxt file_dir m body w = (Raised e', m2, w2)) \<and>
      (olddir m2 = None \<longrightarrow>
         with_CDContxt file_dir m body w = (Raised (AttributeError ''olddir''), m2, w2)) \<and>
      (olddir m2 = olddir m1 \<and> resolve w2 (cwd w2) (cwd w) = Inr (cwd w) \<longrightarrow>
         with_CDContxt file_dir m body w = (out, m2, w2\<lparr>cwd := cwd w\<rparr>)))"
proof (intro conjI impI)
  assume "CDContxt_enter file_dir m w = (Some e, m1, w1)"
  then show "with_CDContxt file_dir m body w = (Raised e, m1, w1)"
    by (simp add: with_CDContxt_def)
next
  assume "CDContxt_enter file_dir m w = (Some e, m1, w1)"
  then show "w1 = w"
    by (auto simp add: CDContxt_enter_def Let_def split: sum.splits if_splits)
next
  assume "CDContxt_enter file_dir m w = (None, m1, w1) \<and> body (m1, w1) = (out, m2, w2)"
  then show "olddir m1 = Some (cwd w)"
    by (auto simp add: CDContxt_enter_def getcwd_def Let_def
        split: sum.splits option.splits if_splits)
next
  assume "CDContxt_enter file_dir m w = (None, m1, w1) \<and> body (m1, w1) = (out, m2, w2)"
    and "olddir m2 = Some d \<and> resolve w2 (cwd w2) d = Inr d'"
  then show "with_CDContxt file_dir m body w = (out, m2, w2\<lparr>cwd := d'\<rparr>)"
    by (simp add: with_CDContxt_def CDContxt_exit_def chdir_def)
next
  assume "CDContxt_enter file_dir m w = (None, m1, w1) \<and> body (m1, w1) = (out, m2, w2)"
    and "olddir m2 = Some d \<and> resolve w2 (cwd w2) d = Inl e'"
  then show "with_CDContxt file_dir m body w = (Raised e', m2, w2)"
    by (simp add: with_CDContxt_def CDContxt_exit_def chdir_def)
next
  assume "CDContxt_enter file_dir m w = (None, m1, w1) \<and> body (m1, w1) = (out, m2, w2)"
    and "olddir m2 = None"
  then show "with_CDContxt file_dir m body w = (Raised (AttributeError ''olddir''), m2, w2)"
    by (simp add: with_CDContxt_def CDContxt_exit_def)
next
  assume a: "CDContxt_enter file_dir m w = (None, m1, w1) \<and> body (m1, w1) = (out, m2, w2)"
    and b: "olddir m2 = olddir m1 \<and> resolve w2 (cwd w2) (cwd w) = Inr (cwd w)"
  from a have "olddir m1 = Some (cwd w)"
    by (auto simp add: CDContxt_enter_def getcwd_def Let_def
        split: sum.splits option.splits if_splits)
  with a b show "with_CDContxt file_dir m body w = (out, m2, w2\<lparr>cwd := cwd w\<rparr>)"
    by (simp add: with_CDContxt_def CDContxt_exit_def chdir_def)
qed

theorem CDContxt_restores_cwd_witness:
  "CDContxt_enter ''/lib'' (CDContxt_init ''/nowhere'') world0 =
     (Some (FileNotFoundError ''/nowhere''), \<lparr> path = ''/nowhere'', olddir = Some ''/home'' \<rparr>, world0) \<and>
   with_CDContxt ''/lib'' (CDContxt_init ''/nowhere'') body_pass world0 =
     (Raised (FileNotFoundError ''/nowhere''), \<lparr> path = ''/nowhere'', olddir = Some ''/home'' \<rparr>, world0) \<and>
   CDContxt_enter ''/lib'' (CDContxt_init []) world0 =
     (None, \<lparr> path = [], olddir = Some ''/home'' \<rparr>, world0\<lparr>cwd := ''/lib''\<rparr>) \<and>
   body_chdir_raise ''/tmp'' (ValueError ''x'')
       (\<lparr> path = [], olddir = Some ''/home'' \<rparr>, world0\<lparr>cwd := ''/lib''\<rparr>) =
     (Raised (ValueError ''x''), \<lparr> path = [], olddir = Some ''/home'' \<rparr>, world0\<lparr>cwd := ''/tmp''\<rparr>) \<and>
   resolve (world0\<lparr>cwd := ''/tmp''\<rparr>) ''/tmp'' ''/home'' = Inr ''/home'' \<and>
   with_CDContxt ''/lib'' (CDContxt_init []) (body_chdir_raise ''/tmp'' (ValueError ''x'')) world0 =
     (Raised (ValueError ''x''), \<lparr> path = [], olddir = Some ''/home'' \<rparr>, world0) \<and>
   body_forget (\<lparr> path = [], olddir = Some ''/home'' \<rparr>, world0\<lparr>cwd := ''/lib''\<rparr>) =
     (Normal, \<lparr> path = [], olddir = None \<rparr>, world0\<lparr>cwd := ''/lib''\<rparr>) \<and>
   with_CDContxt ''/lib'' (CDContxt_init []) body_forget world0 =
     (Raised (AttributeError ''olddir''), \<lparr> path = [], olddir = None \<rparr>, world0\<lparr>cwd := ''/lib''\<rparr>) \<and>
   body_pass (\<lparr> path = [], olddir = Some ''/home'' \<rparr>, world0\<lparr>cwd := ''/lib''\<rparr>) =
     (Normal, \<lparr> path = [], olddir = Some ''/home'' \<rparr>, world0\<lparr>cwd := ''/lib''\<rparr>) \<and>
   resolve (world0\<lparr>cwd := ''/lib''\<rparr>) ''/lib'' ''/gone'' = Inl (FileNotFoundError ''/gone'') \<and>
   with_CDContxt ''/lib'' (CDContxt_init []) (body_set_olddir ''/gone'') world0 =
     (Raised (FileNotFoundError ''/gone''), \<lparr> path = [], olddir = Some ''/gone'' \<rparr>, world0\<lparr>cwd := ''/lib''\<rparr>)"
proof -
  let ?m = "\<lparr> path = [], olddir = Some ''/home'' \<rparr>"
  have e1: "CDContxt_enter ''/lib'' (CDContxt_init ''/nowhere'') world0 =
     (Some (FileNotFoundError ''/nowhere''), \<lparr> path = ''/nowhere'', olddir = Some ''/home'' \<rparr>, world0)"
    by (simp add: CDContxt_enter_def CDContxt_init_def getcwd_def chdir_def world0_def)
  have e2: "CDContxt_enter ''/lib'' (CDContxt_init []) world0 =
     (None, ?m, world0\<lparr>cwd := ''/lib''\<rparr>)"
    by (simp add: CDContxt_enter_def CDContxt_init_def getcwd_def chdir_def cd_def world0_def)
  have b1: "body_chdir_raise ''/tmp'' (ValueError ''x'') (?m, world0\<lparr>cwd := ''/lib''\<rparr>) =
     (Raised (ValueError ''x''), ?m, world0\<lparr>cwd := ''/tmp''\<rparr>)"
    by (simp add: body_chdir_raise_def)
  have b2: "body_forget (?m, world0\<lparr>cwd := ''/lib''\<rparr>) =
     (Normal, \<lparr> path = [], olddir = None \<rparr>, world0\<lparr>cwd := ''/lib''\<rparr>)"
    by (simp add: body_forget_def)
  have b3: "body_set_olddir ''/gone'' (?m, world0\<lparr>cwd := ''/lib''\<rparr>) =
     (Normal, \<lparr> path = [], olddir = Some ''/gone'' \<rparr>, world0\<lparr>cwd := ''/lib''\<rparr>)"
    by (simp add: body_set_olddir_def)
  have b4: "body_pass (?m, world0\<lparr>cwd := ''/lib''\<rparr>) = (Normal, ?m, world0\<lparr>cwd := ''/lib''\<rparr>)"
    by (simp add: body_pass_def)
  have r1: "resolve (world0\<lparr>cwd := ''/tmp''\<rparr>) ''/tmp'' ''/home'' = Inr ''/home''"
    and r2: "resolve (world0\<lparr>cwd := ''/lib''\<rparr>) ''/lib'' ''/gone'' = Inl (FileNotFoundError ''/gone'')"
    and c: "cwd world0 = ''/home''"
    by (simp_all add: world0_def)
  have w0: "world0\<lparr>cwd := ''/tmp'', cwd := ''/home''\<rparr> = world0"
    by (simp add: world0_def)
  have 1: "with_CDContxt ''/lib'' (CDContxt_init ''/nowhere'') body_pass world0 =
     (Raised (FileNotFoundError ''/nowhere''), \<lparr> path = ''/nowhere'', olddir = Some ''/home'' \<rparr>, world0)"
    using CDContxt_restores_cwd [where file_dir = "''/lib''" and m = "CDContxt_init ''/nowhere''"
        and w = world0 and e = "FileNotFoundError ''/nowhere''"
        and ?m1.0 = "\<lparr> path = ''/nowhere'', olddir = Some ''/home'' \<rparr>" and ?w1.0 = world0
        and body = body_pass] e1
    by simp
  have 2: "with_CDContxt ''/lib'' (CDContxt_init []) (body_chdir_raise ''/tmp'' (ValueError ''x'')) world0 =
     (Raised (ValueError ''x''), ?m, world0)"
    using CDContxt_restores_cwd [where file_dir = "''/lib''" and m = "CDContxt_init []"
        and w = world0 and ?m1.0 = ?m and ?w1.0 = "world0\<lparr>cwd := ''/lib''\<rparr>"
        and body = "body_chdir_raise ''/tmp'' (ValueError ''x'')" and out = "Raised (ValueError ''x'')"
        and ?m2.0 = ?m and ?w2.0 = "world0\<lparr>cwd := ''/tmp''\<rparr>"] e2 b1 r1 c w0
    by simp
  have 3: "with_CDContxt ''/lib'' (CDContxt_init []) body_forget world0 =
     (Raised (AttributeError ''olddir''), \<lparr> path = [], olddir = None \<rparr>, world0\<lparr>cwd := ''/lib''\<rparr>)"
    using CDContxt_restores_cwd [where file_dir = "''/lib''" and m = "CDContxt_init []"
        and w = world0 and ?m1.0 = ?m and ?w1.0 = "world0\<lparr>cwd := ''/lib''\<rparr>"
        and body = body_forget and out = Normal
        and ?m2.0 = "\<lparr> path = [], olddir = None \<rparr>" and ?w2.0 = "world0\<lparr>cwd := ''/lib''\<rparr>"] e2 b2
    by simp
  have 4: "with_CDContxt ''/lib'' (CDContxt_init []) (body_set_olddir ''/gone'') world0 =
     (Raised (FileNotFoundError ''/gone''), \<lparr> path = [], olddir = Some ''/gone'' \<rparr>, world0\<lparr>cwd := ''/lib''\<rparr>)"
    using CDContxt_restores_cwd [where file_dir = "''/lib''" and m = "CDContxt_init []"
        and w = world0 and ?m1.0 = ?m and ?w1.0 = "world0\<lparr>cwd := ''/lib''\<rparr>"
        and body = "body_set_olddir ''/gone''" and out = Normal
        and ?m2.0 = "\<lparr> path = [], olddir = Some ''/gone'' \<rparr>" and ?w2.0 = "world0\<lparr>cwd := ''/lib''\<rparr>"
        and d = "''/gone''" and e' = "FileNotFoundError ''/gone''"] e2 b3 r2 c
    by simp
  from e1 e2 b1 b2 b4 r1 r2 1 2 3 4 show ?thesis
    by (intro conjI)
qed

end
